theory Spec2Isabelle
  imports Complex_Main "HOL-Library.AList"
begin

section \<open>Python values used by \<open>ipopt_wrapper.py\<close>\<close>

text \<open>Option values and extra arguments: integers, floats and strings.\<close>

datatype pyval = PInt int | PFloat real | PStr string

text \<open>
  Exceptions are values. \<open>UserError\<close> stands for whatever a caller-supplied function
  raises; the other constructors are the exception classes raised by the module itself,
  by the interpreter (an unbound global name) or by numpy. \<open>InvalidOption k v msg\<close> is
  the \<open>TypeError\<close> of line 186, whose message is formatted from the option name, the
  value and the solver's own message.
\<close>

datatype exn =
    NotImplementedError string
  | NameError string
  | ValueError string
  | TypeError string
  | AttributeError string
  | IndexError string
  | InvalidOption string pyval string
  | UserError string

text \<open>
  Array-like data: a zero-dimensional scalar or a one-dimensional array. Floating-point
  numbers are represented by \<open>real\<close>, so rounding and NaN are outside the model.
\<close>

datatype pyarr = Scalar real | Vec "real list"

text \<open>Extra positional arguments are a sequence of values.\<close>

type_synonym pyargs = "pyval list"

text \<open>
  A \<open>dict\<close> with string keys, in insertion order: \<open>d[k] = v\<close> is \<open>AList.update\<close>
  (in place when the key exists, appended otherwise), \<open>d.pop(k)\<close> removes the entry
  (\<open>AList.delete\<close>), \<open>k in d\<close> is membership in the keys.
\<close>

type_synonym pydict = "(string \<times> pyval) list"

definition has_key :: "pydict \<Rightarrow> string \<Rightarrow> bool" where
  "has_key d k = (k \<in> set (map fst d))"

text \<open>
  What the objective callable returns: a number, an array, or a pair (the
  \<open>(value, gradient)\<close> tuple of a combined evaluator). The wrapper never checks which.
\<close>

datatype pyobj = Num real | Arr "real list" | Pair pyobj pyobj

fun py_getitem :: "pyobj \<Rightarrow> nat \<Rightarrow> exn + pyobj" where
  "py_getitem (Pair a b) i =
     (if i = 0 then Inr a else if i = 1 then Inr b
      else Inl (IndexError ''tuple index out of range''))"
| "py_getitem (Arr xs) i =
     (if i < length xs then Inr (Num (xs ! i))
      else Inl (IndexError ''index out of bounds''))"
| "py_getitem (Num v) i = Inl (TypeError ''object is not subscriptable'')"

type_synonym objfun = "real list \<Rightarrow> pyargs \<Rightarrow> pydict \<Rightarrow> exn + pyobj"
type_synonym gradfun = "real list \<Rightarrow> pyargs \<Rightarrow> pydict \<Rightarrow> exn + pyobj"

text \<open>
  A constraint function maps a point to a scalar or a vector; a constraint Jacobian
  returns a one-dimensional array (a single row) or a two-dimensional one.
\<close>

datatype jacarr = Row "real list" | Rows "real list list"

type_synonym confun = "pyarr \<Rightarrow> pyargs \<Rightarrow> exn + pyarr"
type_synonym conjac = "pyarr \<Rightarrow> pyargs \<Rightarrow> exn + jacarr"

text \<open>
  A constraint specification is a dictionary with the keys \<open>fun\<close> and \<open>type\<close>, read with
  \<open>con['fun']\<close> and \<open>con['type']\<close>, and the optional keys \<open>jac\<close> and \<open>args\<close>, read with
  \<open>con.get\<close>.
\<close>

record constraint =
  con_fun :: confun
  con_jac :: "conjac option"
  con_type :: string
  con_args :: "pyargs option"

text \<open>\<open>con.get('args', [])\<close>.\<close>

definition get_args :: "constraint \<Rightarrow> pyargs" where
  "get_args con = (case con_args con of None \<Rightarrow> [] | Some a \<Rightarrow> a)"

text \<open>The \<open>constraints\<close> argument is one dictionary or a sequence of them.\<close>

datatype cons_arg = OneCon constraint | ManyCons "constraint list"

fun as_tuple :: "cons_arg \<Rightarrow> constraint list" where
  "as_tuple (OneCon c) = [c]"
| "as_tuple (ManyCons cs) = cs"

text \<open>
  The \<open>jac\<close> argument: \<open>None\<close>, the object \<open>True\<close>, a callable, or anything else
  (\<open>False\<close>, a number, ...).
\<close>

datatype jac_spec = JacNone | JacTrue | JacCallable gradfun | JacOther

datatype jac_attr = JTrue | JFun gradfun

type_synonym hessfun = "real list \<Rightarrow> real list list"
type_synonym hesspfun = "real list \<Rightarrow> real list \<Rightarrow> real list"

section \<open>numpy and scipy operations the module calls\<close>

fun atleast_1d :: "pyarr \<Rightarrow> real list" where
  "atleast_1d (Scalar v) = [v]"
| "atleast_1d (Vec xs) = xs"

text \<open>
  \<open>np.all(a == b)\<close> on one-dimensional arrays: elementwise on equal lengths, a
  length-one array is broadcast against the other, and arrays whose shapes do not
  broadcast compare as unequal.
\<close>

definition np_all_eq :: "real list \<Rightarrow> real list \<Rightarrow> bool" where
  "np_all_eq xs ys =
     (if length xs = length ys then xs = ys
      else if length xs = 1 then list_all (\<lambda>y. hd xs = y) ys
      else if length ys = 1 then list_all (\<lambda>x. x = hd ys) xs
      else False)"

text \<open>
  \<open>np.hstack\<close> of scalars and one-dimensional arrays: each is made one-dimensional and
  they are concatenated; an empty sequence is rejected.
\<close>

definition np_hstack :: "pyarr list \<Rightarrow> exn + real list" where
  "np_hstack vs =
     (if vs = [] then Inl (ValueError ''need at least one array to concatenate'')
      else Inr (concat (map atleast_1d vs)))"

fun atleast_2d :: "jacarr \<Rightarrow> real list list" where
  "atleast_2d (Row r) = [r]"
| "atleast_2d (Rows rs) = rs"

text \<open>
  \<open>np.vstack\<close>: each block is made two-dimensional and the blocks are concatenated along
  the first axis; an empty sequence is rejected, and so are blocks whose rows differ in
  length.
\<close>

definition np_vstack :: "jacarr list \<Rightarrow> exn + real list list" where
  "np_vstack bs =
     (let rows = concat (map atleast_2d bs) in
      if bs = [] then Inl (ValueError ''need at least one array to concatenate'')
      else if list_all (\<lambda>r. length r = length (hd rows)) rows then Inr rows
      else Inl (ValueError ''all the input array dimensions must match exactly''))"

text \<open>
  \<open>scipy.optimize.approx_fprime(xk, f, epsilon, *args)\<close>: forward differences. It
  evaluates \<open>f\<close> at \<open>xk\<close> and then at \<open>xk + epsilon * e_k\<close> for each coordinate \<open>k\<close>, in
  order; an exception of \<open>f\<close> ends the computation. The function takes no keyword
  arguments.
\<close>

fun as_scalar :: "pyobj \<Rightarrow> exn + real" where
  "as_scalar (Num v) = Inr v"
| "as_scalar (Arr xs) =
     (case xs of [v] \<Rightarrow> Inr v
      | _ \<Rightarrow> Inl (ValueError ''setting an array element with a sequence''))"
| "as_scalar (Pair a b) = Inl (TypeError ''unsupported operand type(s) for -'')"

definition fd_point :: "real list \<Rightarrow> real \<Rightarrow> nat \<Rightarrow> real list" where
  "fd_point xk eps k = xk[k := xk ! k + eps]"

fun fd_loop :: "(real list \<Rightarrow> exn + pyobj) \<Rightarrow> real list \<Rightarrow> real \<Rightarrow> real \<Rightarrow> nat list
                \<Rightarrow> exn + real list" where
  "fd_loop f xk eps f0 [] = Inr []"
| "fd_loop f xk eps f0 (k # ks) =
     (case f (fd_point xk eps k) of
        Inl e \<Rightarrow> Inl e
      | Inr r \<Rightarrow>
          (case as_scalar r of
             Inl e \<Rightarrow> Inl e
           | Inr fk \<Rightarrow>
               (case fd_loop f xk eps f0 ks of
                  Inl e \<Rightarrow> Inl e
                | Inr g \<Rightarrow> Inr ((fk - f0) / eps # g))))"

definition approx_fprime :: "real list \<Rightarrow> objfun \<Rightarrow> real \<Rightarrow> pyargs \<Rightarrow> pydict \<Rightarrow> exn + pyobj" where
  "approx_fprime xk f eps args kwargs =
     (if kwargs \<noteq> [] then Inl (TypeError ''approx_fprime() got an unexpected keyword argument'')
      else
        (case f xk args [] of
           Inl e \<Rightarrow> Inl e
         | Inr r0 \<Rightarrow>
             (case as_scalar r0 of
                Inl e \<Rightarrow> Inl e
              | Inr f0 \<Rightarrow>
                  (case fd_loop (\<lambda>x. f x args []) xk eps f0 [0..<length xk] of
                     Inl e \<Rightarrow> Inl e
                   | Inr g \<Rightarrow> Inr (Arr g)))))"

text \<open>The points at which \<open>approx_fprime\<close> evaluates the function.\<close>

definition approx_fprime_points :: "real list \<Rightarrow> real \<Rightarrow> real list list" where
  "approx_fprime_points xk eps = xk # map (fd_point xk eps) [0..<length xk]"

section \<open>The problem adapter: class \<open>IpoptProblemWrapper\<close>\<close>

text \<open>
  The instance attributes. \<open>last_value\<close> is \<open>None\<close> while the attribute has not been
  assigned. Python integers are unbounded.
\<close>

record wrapper =
  fun_with_jac :: "objfun option"
  last_x :: "real list option"
  last_value :: "pyobj option"
  w_fun :: objfun
  w_jac :: jac_attr
  w_args :: pyargs
  w_kwargs :: pydict
  constraint_funs :: "confun list"
  constraint_jacs :: "conjac list"
  constraint_args :: "pyargs list"
  nfev :: int
  njev :: int
  nit :: int

text \<open>
  The loop over the constraint specifications in \<open>__init__\<close>. When a specification has no
  \<open>jac\<close>, line 42 evaluates the global name \<open>FunctionWithApproxJacobian\<close>. The module binds
  only \<open>np\<close>, \<open>OptimizeResult\<close>, \<open>cyipopt\<close>, \<open>approx_fprime\<close> and its own five
  definitions, and the builtins have no such name, so the evaluation raises \<open>NameError\<close>.
\<close>

fun init_constraints ::
  "constraint list \<Rightarrow> confun list \<times> conjac list \<times> pyargs list
   \<Rightarrow> exn + confun list \<times> conjac list \<times> pyargs list" where
  "init_constraints [] acc = Inr acc"
| "init_constraints (con # cons) (fs, js, as) =
     (case con_jac con of
        None \<Rightarrow> Inl (NameError ''FunctionWithApproxJacobian'')
      | Some j \<Rightarrow>
          init_constraints cons
            (fs @ [con_fun con], js @ [j], as @ [get_args con]))"

definition kwargs_or_empty :: "pydict option \<Rightarrow> pydict" where
  "kwargs_or_empty kwargs = (case kwargs of None \<Rightarrow> [] | Some d \<Rightarrow> d)"

definition IpoptProblemWrapper_init ::
  "objfun \<Rightarrow> pyargs \<Rightarrow> pydict option \<Rightarrow> jac_spec \<Rightarrow> hessfun option \<Rightarrow> hesspfun option
   \<Rightarrow> cons_arg \<Rightarrow> real \<Rightarrow> exn + wrapper" where
  "IpoptProblemWrapper_init f args kwargs jac hess hessp constrs eps =
     (if hess \<noteq> None \<or> hessp \<noteq> None
      then Inl (NotImplementedError ''Using hessian matrixes is not yet implemented!'')
      else
        (case (case jac of
                 JacNone \<Rightarrow> Inr (None, JFun (\<lambda>x0 args kwargs. approx_fprime x0 f eps args kwargs))
               | JacTrue \<Rightarrow> Inr (Some f, JTrue)
               | JacCallable g \<Rightarrow> Inr (None, JFun g)
               | JacOther \<Rightarrow> Inl (NotImplementedError ''jac has to be bool or a function''))
         of
           Inl e \<Rightarrow> Inl e
         | Inr (fwj, j) \<Rightarrow>
             (case init_constraints (as_tuple constrs) ([], [], []) of
                Inl e \<Rightarrow> Inl e
              | Inr (fs, js, as) \<Rightarrow>
                  Inr \<lparr> fun_with_jac = fwj, last_x = None, last_value = None,
                        w_fun = f, w_jac = j, w_args = args,
                        w_kwargs = kwargs_or_empty kwargs,
                        constraint_funs = fs, constraint_jacs = js, constraint_args = as,
                        nfev = 0, njev = 0, nit = 0 \<rparr>)))"

text \<open>
  The methods take the instance and return it updated, together with the value returned
  or the exception raised. An assignment made before an exception stays made.
\<close>

definition evaluate_fun_with_grad :: "wrapper \<Rightarrow> real list \<Rightarrow> (exn + pyobj) \<times> wrapper" where
  "evaluate_fun_with_grad w x =
     (if (case last_x w of None \<Rightarrow> True | Some lx \<Rightarrow> \<not> np_all_eq lx x)
      then
        (let w1 = w\<lparr>last_x := Some x\<rparr>;
             w2 = w1\<lparr>nfev := nfev w1 + 1\<rparr>
         in case w_fun w2 x (w_args w2) (w_kwargs w2) of
              Inl e \<Rightarrow> (Inl e, w2)
            | Inr v \<Rightarrow> (Inr v, w2\<lparr>last_value := Some v\<rparr>))
      else
        (case last_value w of
           None \<Rightarrow> (Inl (AttributeError ''last_value''), w)
         | Some v \<Rightarrow> (Inr v, w)))"

definition objective :: "wrapper \<Rightarrow> real list \<Rightarrow> (exn + pyobj) \<times> wrapper" where
  "objective w x =
     (if fun_with_jac w \<noteq> None
      then
        (case evaluate_fun_with_grad w x of
           (Inl e, w') \<Rightarrow> (Inl e, w')
         | (Inr v, w') \<Rightarrow> (py_getitem v 0, w'))
      else
        (let w' = w\<lparr>nfev := nfev w + 1\<rparr>
         in (w_fun w' x (w_args w') (w_kwargs w'), w')))"

definition gradient :: "wrapper \<Rightarrow> real list \<Rightarrow> (exn + pyobj) \<times> wrapper" where
  "gradient w x =
     (if fun_with_jac w \<noteq> None
      then
        (case evaluate_fun_with_grad w x of
           (Inl e, w') \<Rightarrow> (Inl e, w')
         | (Inr v, w') \<Rightarrow> (py_getitem v 1, w'))
      else
        (let w' = w\<lparr>njev := njev w + 1\<rparr>
         in (case w_jac w' of
               JTrue \<Rightarrow> Inl (TypeError ''bool object is not callable'')
             | JFun g \<Rightarrow> g x (w_args w') (w_kwargs w'),
             w')))"

text \<open>
  \<open>constraints\<close> and \<open>jacobian\<close>: the loop over \<open>zip(funs, args)\<close> appends each result to
  \<open>con_values\<close>; an exception of a constraint function ends the loop.
\<close>

fun eval_each :: "(pyarr \<Rightarrow> pyargs \<Rightarrow> exn + 'a) list \<Rightarrow> pyargs list \<Rightarrow> pyarr \<Rightarrow> 'a list
                  \<Rightarrow> exn + 'a list" where
  "eval_each (f # fs) (a # as) x con_values =
     (case f x a of
        Inl e \<Rightarrow> Inl e
      | Inr v \<Rightarrow> eval_each fs as x (con_values @ [v]))"
| "eval_each _ _ x con_values = Inr con_values"

definition constraints :: "wrapper \<Rightarrow> real list \<Rightarrow> exn + real list" where
  "constraints w x =
     (case eval_each (constraint_funs w) (constraint_args w) (Vec x) [] of
        Inl e \<Rightarrow> Inl e
      | Inr con_values \<Rightarrow> np_hstack con_values)"

definition jacobian :: "wrapper \<Rightarrow> real list \<Rightarrow> exn + real list list" where
  "jacobian w x =
     (case eval_each (constraint_jacs w) (constraint_args w) (Vec x) [] of
        Inl e \<Rightarrow> Inl e
      | Inr con_values \<Rightarrow> np_vstack con_values)"

definition intermediate :: "wrapper \<Rightarrow> int \<Rightarrow> wrapper" where
  "intermediate w iter_count = w\<lparr>nit := iter_count\<rparr>"

text \<open>
  The components one constraint contributes at a point, and the rows its Jacobian
  contributes: what its function, and its \<open>jac\<close>, return there, made one-dimensional and
  two-dimensional.
\<close>

definition con_value :: "constraint \<Rightarrow> real list \<Rightarrow> real list" where
  "con_value c x =
     (case con_fun c (Vec x) (get_args c) of Inl e \<Rightarrow> [] | Inr v \<Rightarrow> atleast_1d v)"

definition con_jac_rows :: "constraint \<Rightarrow> real list \<Rightarrow> real list list" where
  "con_jac_rows c x =
     (case con_jac c of
        None \<Rightarrow> []
      | Some j \<Rightarrow> (case j (Vec x) (get_args c) of Inl e \<Rightarrow> [] | Inr b \<Rightarrow> atleast_2d b))"

section \<open>Bounds\<close>

definition get_bounds :: "(real \<times> real) list option \<Rightarrow> real list option \<times> real list option" where
  "get_bounds bounds =
     (case bounds of
        None \<Rightarrow> (None, None)
      | Some bs \<Rightarrow> (Some (map fst bs), Some (map snd bs)))"

text \<open>The default of the parameter \<open>INF\<close> (written \<open>INFv\<close> below), \<open>1e19\<close>.\<close>

definition INF_default :: real where
  "INF_default = 10 ^ 19"

text \<open>
  The loop of \<open>get_constraint_bounds\<close>; \<open>cl\<close> and \<open>cu\<close> are the lists being extended.
  The constraint function is called before the kind tag is looked at.
\<close>

fun constraint_bounds_loop ::
  "constraint list \<Rightarrow> pyarr \<Rightarrow> real \<Rightarrow> real list \<times> real list \<Rightarrow> exn + real list \<times> real list" where
  "constraint_bounds_loop [] x0 INFv (cl, cu) = Inr (cl, cu)"
| "constraint_bounds_loop (con # cons) x0 INFv (cl, cu) =
     (case con_fun con x0 (get_args con) of
        Inl e \<Rightarrow> Inl e
      | Inr v \<Rightarrow>
          (let m = length (atleast_1d v);
               cl' = cl @ replicate m 0
           in if con_type con = ''eq''
              then constraint_bounds_loop cons x0 INFv (cl', cu @ replicate m 0)
              else if con_type con = ''ineq''
              then constraint_bounds_loop cons x0 INFv
                     (cl', cu @ map (\<lambda>one. INFv * one) (replicate m 1))
              else Inl (ValueError (con_type con))))"

definition get_constraint_bounds :: "cons_arg \<Rightarrow> pyarr \<Rightarrow> real \<Rightarrow> exn + real list \<times> real list" where
  "get_constraint_bounds constrs x0 INFv =
     constraint_bounds_loop (as_tuple constrs) x0 INFv ([], [])"

text \<open>
  The number of components of a constraint at the probe point, \<open>m_i\<close>: the length of
  what its function returns there, a scalar counting as one component.
\<close>

definition arity_at :: "constraint \<Rightarrow> pyarr \<Rightarrow> nat" where
  "arity_at con x0 =
     (case con_fun con x0 (get_args con) of Inl e \<Rightarrow> 0 | Inr v \<Rightarrow> length (atleast_1d v))"

text \<open>A kind tag that \<open>get_constraint_bounds\<close> does not recognise.\<close>

definition bad_kind :: "constraint \<Rightarrow> bool" where
  "bad_kind con = (con_type con \<noteq> ''eq'' \<and> con_type con \<noteq> ''ineq'')"

section \<open>Options\<close>

definition replace_option :: "pydict \<Rightarrow> string \<Rightarrow> string \<Rightarrow> pydict" where
  "replace_option options oldname newname =
     (case map_of options oldname of
        None \<Rightarrow> options
      | Some v \<Rightarrow>
          (if \<not> has_key options newname
           then AList.update newname v (AList.delete oldname options)
           else options))"

text \<open>\<open>tol or 1e-8\<close>: \<open>None\<close> and \<open>0.0\<close> are both false.\<close>

definition tol_or_default :: "real option \<Rightarrow> real" where
  "tol_or_default tol =
     (case tol of None \<Rightarrow> 1 / 10 ^ 8 | Some t \<Rightarrow> if t = 0 then 1 / 10 ^ 8 else t)"

definition set_if_absent :: "pydict \<Rightarrow> string \<Rightarrow> pyval \<Rightarrow> pydict" where
  "set_if_absent options k v = (if \<not> has_key options k then AList.update k v options else options)"

text \<open>Lines 171 and 172 of \<open>minimize_ipopt\<close>: the two aliases.\<close>

definition rename_options :: "pydict \<Rightarrow> pydict" where
  "rename_options options =
     replace_option (replace_option options ''disp'' ''print_level'') ''maxiter'' ''max_iter''"

text \<open>Lines 173 to 181: the defaults, as the successive contents of the dictionary.\<close>

definition default_options ::
  "pydict \<Rightarrow> real option \<Rightarrow> hessfun option \<Rightarrow> hesspfun option \<Rightarrow> pydict" where
  "default_options options tol hess hessp =
     (let o3 = set_if_absent options ''print_level'' (PInt 0);
          o4 = set_if_absent o3 ''tol'' (PFloat (tol_or_default tol));
          o5 = set_if_absent o4 ''mu_strategy'' (PStr ''adaptive'')
      in if \<not> has_key o5 ''hessian_approximation''
         then (if hess = None \<and> hessp = None
               then AList.update ''hessian_approximation'' (PStr ''limited-memory'') o5
               else o5)
         else o5)"

text \<open>Lines 171 to 181 together: what the option dictionary holds when the loop over its items starts.\<close>

definition translate_options ::
  "pydict \<Rightarrow> real option \<Rightarrow> hessfun option \<Rightarrow> hesspfun option \<Rightarrow> pydict" where
  "translate_options options tol hess hessp =
     default_options (rename_options options) tol hess hessp"

section \<open>The external solver and the store\<close>

text \<open>
  Dictionaries are objects: the store maps addresses to dictionaries, and \<open>{}\<close> allocates
  the next free address.
\<close>

record store =
  cells :: "nat \<Rightarrow> pydict"
  next_free :: nat

definition new_dict :: "store \<Rightarrow> nat \<times> store" where
  "new_dict h = (next_free h, h\<lparr>cells := (cells h)(next_free h := []), next_free := Suc (next_free h)\<rparr>)"

text \<open>The arguments of \<open>cyipopt.problem\<close>.\<close>

record nlp =
  nlp_n :: nat
  nlp_m :: nat
  nlp_problem_obj :: wrapper
  nlp_lb :: "real list option"
  nlp_ub :: "real list option"
  nlp_cl :: "real list"
  nlp_cu :: "real list"

record info =
  status :: int
  status_msg :: string
  obj_val :: real

text \<open>
  The solver is a parameter. \<open>addOption name value\<close> returns the exception it raises, if
  any. \<open>solve\<close> receives the problem, the options applied and the starting point; it
  returns the solution and the info payload, or the exception that interrupted it, and
  the adapter as its calls of the five operations left it.
\<close>

record solver =
  addOption :: "string \<Rightarrow> pyval \<Rightarrow> exn option"
  solve :: "nlp \<Rightarrow> pydict \<Rightarrow> real list \<Rightarrow> (exn + real list \<times> info) \<times> wrapper"

text \<open>The calls made on the solver, in order.\<close>

datatype event = Created nat nat | AddOption string pyval | Solve "real list"

fun add_options :: "solver \<Rightarrow> pydict \<Rightarrow> event list \<Rightarrow> exn option \<times> event list" where
  "add_options s [] evs = (None, evs)"
| "add_options s ((option, v) # rest) evs =
     (let evs' = evs @ [AddOption option v]
      in case addOption s option v of
           None \<Rightarrow> add_options s rest evs'
         | Some (TypeError msg) \<Rightarrow> (Some (InvalidOption option v msg), evs')
         | Some e \<Rightarrow> (Some e, evs'))"

section \<open>The entry operation \<open>minimize_ipopt\<close>\<close>

record result =
  r_x :: pyarr
  r_success :: bool
  r_status :: int
  r_message :: string
  r_fun :: real
  r_info :: info
  r_nfev :: int
  r_njev :: int
  r_nit :: int

definition is_scalar :: "pyarr \<Rightarrow> bool" where
  "is_scalar x0 = (case x0 of Scalar _ \<Rightarrow> True | Vec _ \<Rightarrow> False)"

text \<open>
  The parameters \<open>method\<close> and \<open>callback\<close> are never read and are left out. \<open>options\<close> is
  \<open>None\<close> or the address of the caller's dictionary. The result comes with the store and
  the calls made on the solver. \<open>eps\<close> is not passed to the adapter, so its default \<open>1e-8\<close>
  applies, and \<open>INF\<close> has its default.
\<close>

definition minimize_ipopt ::
  "solver \<Rightarrow> objfun \<Rightarrow> pyarr \<Rightarrow> pyargs \<Rightarrow> pydict option \<Rightarrow> jac_spec \<Rightarrow> hessfun option
   \<Rightarrow> hesspfun option \<Rightarrow> (real \<times> real) list option \<Rightarrow> cons_arg \<Rightarrow> real option
   \<Rightarrow> nat option \<Rightarrow> store \<Rightarrow> (exn + result) \<times> store \<times> event list" where
  "minimize_ipopt s f x0 args kwargs jac hess hessp bounds constrs tol options h =
     (let x0' = atleast_1d x0 in
      case IpoptProblemWrapper_init f args kwargs jac hess hessp constrs (1 / 10 ^ 8) of
        Inl e \<Rightarrow> (Inl e, h, [])
      | Inr problem \<Rightarrow>
          (let (lb, ub) = get_bounds bounds in
           case get_constraint_bounds constrs x0 INF_default of
             Inl e \<Rightarrow> (Inl e, h, [])
           | Inr (cl, cu) \<Rightarrow>
               (let (a, h1) = (case options of None \<Rightarrow> new_dict h | Some a \<Rightarrow> (a, h));
                    p = \<lparr> nlp_n = length x0', nlp_m = length cl, nlp_problem_obj = problem,
                          nlp_lb = lb, nlp_ub = ub, nlp_cl = cl, nlp_cu = cu \<rparr>;
                    evs = [Created (length x0') (length cl)];
                    h2 = h1\<lparr>cells := (cells h1)(a := translate_options (cells h1 a) tol hess hessp)\<rparr>
                in case add_options s (cells h2 a) evs of
                     (Some e, evs') \<Rightarrow> (Inl e, h2, evs')
                   | (None, evs') \<Rightarrow>
                       (case solve s p (cells h2 a) x0' of
                          (Inl e, problem') \<Rightarrow> (Inl e, h2, evs' @ [Solve x0'])
                        | (Inr (x, info), problem') \<Rightarrow>
                            (case (if is_scalar x0
                                   then (case x of
                                           [] \<Rightarrow> Inl (IndexError ''index 0 is out of bounds'')
                                         | v # _ \<Rightarrow> Inr (Scalar v))
                                   else Inr (Vec x))
                             of
                               Inl e \<Rightarrow> (Inl e, h2, evs' @ [Solve x0'])
                             | Inr x' \<Rightarrow>
                                 (Inr \<lparr> r_x = x', r_success = (status info = 0),
                                        r_status = status info, r_message = status_msg info,
                                        r_fun = obj_val info, r_info = info,
                                        r_nfev = nfev problem', r_njev = njev problem',
                                        r_nit = nit problem' \<rparr>,
                                  h2, evs' @ [Solve x0']))))))"

section \<open>Example inputs\<close>

text \<open>The objective \<open>f(x) = sum of x_i^2\<close>, alone and as a combined evaluator.\<close>

definition ex_fun :: objfun where
  "ex_fun = (\<lambda>x args kwargs. Inr (Num (sum_list (map (\<lambda>v. v * v) x))))"

definition ex_fun_grad :: objfun where
  "ex_fun_grad =
     (\<lambda>x args kwargs. Inr (Pair (Num (sum_list (map (\<lambda>v. v * v) x))) (Arr (map (\<lambda>v. 2 * v) x))))"

definition ex_grad :: gradfun where
  "ex_grad = (\<lambda>x args kwargs. Inr (Arr (map (\<lambda>v. 2 * v) x)))"

text \<open>
  The scalar constraint \<open>sum of x_i - 1\<close> with its gradient as Jacobian, and the
  two-component constraint \<open>(x_0, x_0 + x_1)\<close> on points of dimension two.
\<close>

definition ex_con_fun :: confun where
  "ex_con_fun = (\<lambda>x args. Inr (Scalar (sum_list (atleast_1d x) - 1)))"

definition ex_con_jac :: conjac where
  "ex_con_jac = (\<lambda>x args. Inr (Row (map (\<lambda>v. 1) (atleast_1d x))))"

definition ex_con2_fun :: confun where
  "ex_con2_fun = (\<lambda>x args. Inr (Vec [hd (atleast_1d x), sum_list (atleast_1d x)]))"

definition ex_con2_jac :: conjac where
  "ex_con2_jac = (\<lambda>x args. Inr (Rows [[1, 0], [1, 1]]))"

definition ex_eq :: constraint where
  "ex_eq = \<lparr> con_fun = ex_con_fun, con_jac = Some ex_con_jac, con_type = ''eq'',
            con_args = None \<rparr>"

definition ex_ineq :: constraint where
  "ex_ineq = \<lparr> con_fun = ex_con2_fun, con_jac = Some ex_con2_jac, con_type = ''ineq'',
              con_args = Some [] \<rparr>"

definition ex_nojac :: constraint where
  "ex_nojac = \<lparr> con_fun = ex_con_fun, con_jac = None, con_type = ''eq'', con_args = None \<rparr>"

definition ex_badkind :: constraint where
  "ex_badkind = \<lparr> con_fun = ex_con_fun, con_jac = Some ex_con_jac, con_type = ''le'',
                 con_args = None \<rparr>"

text \<open>
  A solver that accepts every option but \<open>disp\<close> and \<open>maxiter\<close>, asks for the objective
  and the gradient at the starting point, reports one iteration and returns the starting
  point with status 0.
\<close>

definition ex_solver :: solver where
  "ex_solver =
     \<lparr> addOption = (\<lambda>name v. if name = ''disp'' \<or> name = ''maxiter''
                               then Some (TypeError ''unknown option'') else None),
       solve = (\<lambda>p opts x.
                  let w1 = snd (objective (nlp_problem_obj p) x);
                      w2 = snd (gradient w1 x);
                      w3 = intermediate w2 1
                  in (Inr (x, \<lparr> status = 0, status_msg = ''solved'', obj_val = 0 \<rparr>), w3)) \<rparr>"

text \<open>A store holding one dictionary, \<open>{'disp': 5, 'maxiter': 100}\<close>, at address 0.\<close>

definition ex_store :: store where
  "ex_store = \<lparr> cells = (\<lambda>a. []) (0 := [(''disp'', PInt 5), (''maxiter'', PInt 100)]),
                next_free = 1 \<rparr>"

text \<open>The same store with \<open>{'disp': 5, 'print_level': 1}\<close> at address 0.\<close>

definition ex_store_both :: store where
  "ex_store_both = \<lparr> cells = (\<lambda>a. []) (0 := [(''disp'', PInt 5), (''print_level'', PInt 1)]),
                     next_free = 1 \<rparr>"

text \<open>
  The adapter as \<open>__init__\<close> leaves it for the combined evaluator with \<open>jac=True\<close> and for
  the plain objective with \<open>jac=None\<close>, both without constraints.
\<close>

definition ex_combined :: wrapper where
  "ex_combined =
     \<lparr> fun_with_jac = Some ex_fun_grad, last_x = None, last_value = None,
       w_fun = ex_fun_grad, w_jac = JTrue, w_args = [], w_kwargs = [],
       constraint_funs = [], constraint_jacs = [], constraint_args = [],
       nfev = 0, njev = 0, nit = 0 \<rparr>"

definition ex_standalone :: wrapper where
  "ex_standalone =
     \<lparr> fun_with_jac = None, last_x = None, last_value = None,
       w_fun = ex_fun,
       w_jac = JFun (\<lambda>x0 args kwargs. approx_fprime x0 ex_fun (1 / 10 ^ 8) args kwargs),
       w_args = [], w_kwargs = [],
       constraint_funs = [], constraint_jacs = [], constraint_args = [],
       nfev = 0, njev = 0, nit = 0 \<rparr>"

text \<open>The same solver, accepting every option.\<close>

definition ex_solver_any :: solver where
  "ex_solver_any = ex_solver\<lparr>addOption := (\<lambda>name v. None)\<rparr>"

text \<open>
  A scalar constraint whose \<open>jac\<close> returns two rows, and the adapter for the constraint
  list that holds it alone.
\<close>

definition ex_misshaped :: constraint where
  "ex_misshaped = \<lparr> con_fun = ex_con_fun, con_jac = Some ex_con2_jac, con_type = ''eq'',
                   con_args = None \<rparr>"

definition ex_misshaped_adapter :: wrapper where
  "ex_misshaped_adapter =
     \<lparr> fun_with_jac = None, last_x = None, last_value = None,
       w_fun = ex_fun, w_jac = JFun ex_grad, w_args = [], w_kwargs = [],
       constraint_funs = [ex_con_fun],
       constraint_jacs = [ex_con2_jac],
       constraint_args = [[]],
       nfev = 0, njev = 0, nit = 0 \<rparr>"

text \<open>The adapter for the constraint list \<open>[ex_ineq, ex_eq]\<close>.\<close>

definition ex_constrained :: wrapper where
  "ex_constrained =
     \<lparr> fun_with_jac = None, last_x = None, last_value = None,
       w_fun = ex_fun, w_jac = JFun ex_grad, w_args = [], w_kwargs = [],
       constraint_funs = [ex_con2_fun, ex_con_fun],
       constraint_jacs = [ex_con2_jac, ex_con_jac],
       constraint_args = [[], []],
       nfev = 0, njev = 0, nit = 0 \<rparr>"

text \<open>What the entry operation returns for \<open>ex_solver\<close> started at \<open>(1, 2)\<close>.\<close>

definition ex_result :: result where
  "ex_result =
     \<lparr> r_x = Vec [1, 2], r_success = True, r_status = 0, r_message = ''solved'', r_fun = 0,
       r_info = \<lparr> status = 0, status_msg = ''solved'', obj_val = 0 \<rparr>,
       r_nfev = 1, r_njev = 1, r_nit = 1 \<rparr>"

text \<open>The same for the scalar starting point \<open>3\<close>.\<close>

definition ex_scalar_result :: result where
  "ex_scalar_result =
     \<lparr> r_x = Scalar 3, r_success = True, r_status = 0, r_message = ''solved'', r_fun = 0,
       r_info = \<lparr> status = 0, status_msg = ''solved'', obj_val = 0 \<rparr>,
       r_nfev = 1, r_njev = 1, r_nit = 1 \<rparr>"

section \<open>Construction\<close>

lemma init_constraints_acc:
  "init_constraints cs (fs, js, as) =
     (if list_all (\<lambda>c. con_jac c \<noteq> None) cs
      then Inr (fs @ map con_fun cs, js @ map (\<lambda>c. the (con_jac c)) cs, as @ map get_args cs)
      else Inl (NameError ''FunctionWithApproxJacobian''))"
  by (induction cs arbitrary: fs js as) (auto split: option.splits)

text \<open>
  C6. Whatever the other arguments are, a Hessian or a Hessian-vector product that is
  not \<open>None\<close> makes the construction of the adapter raise \<open>NotImplementedError\<close>; the entry
  operation then raises the same error, leaves the store as it was and has made no call
  on the solver.
\<close>

theorem hessian_rejected:
  "hess \<noteq> None \<or> hessp \<noteq> None \<Longrightarrow>
   IpoptProblemWrapper_init f args kwargs jac hess hessp constrs eps =
     Inl (NotImplementedError ''Using hessian matrixes is not yet implemented!'') \<and>
   minimize_ipopt s f x0 args kwargs jac hess hessp bounds constrs tol options h =
     (Inl (NotImplementedError ''Using hessian matrixes is not yet implemented!''), h, [])"
  by (simp add: IpoptProblemWrapper_init_def minimize_ipopt_def)

theorem hessian_rejected_witness:
  "IpoptProblemWrapper_init ex_fun [] None (JacCallable ex_grad) (Some (\<lambda>x. [])) None
     (ManyCons [ex_eq]) (1 / 10 ^ 8) =
     Inl (NotImplementedError ''Using hessian matrixes is not yet implemented!'') \<and>
   minimize_ipopt ex_solver ex_fun (Vec [1, 2]) [] None (JacCallable ex_grad) (Some (\<lambda>x. [])) None
     None (ManyCons [ex_eq]) None (Some 0) ex_store =
     (Inl (NotImplementedError ''Using hessian matrixes is not yet implemented!''), ex_store, [])"
  using hessian_rejected [of "Some (\<lambda>x. [])" None ex_fun "[]" None "JacCallable ex_grad"
      "ManyCons [ex_eq]" "1 / 10 ^ 8" ex_solver "Vec [1, 2]" None None "Some 0" ex_store]
  by simp

section \<open>Combined evaluation and the counters\<close>

lemma evaluate_miss:
  assumes "case last_x w of None \<Rightarrow> True | Some lx \<Rightarrow> lx \<noteq> x \<and> length lx = length x"
  shows "nfev (snd (evaluate_fun_with_grad w x)) = nfev w + 1"
    and "njev (snd (evaluate_fun_with_grad w x)) = njev w"
    and "last_x (snd (evaluate_fun_with_grad w x)) = Some x"
    and "fun_with_jac (snd (evaluate_fun_with_grad w x)) = fun_with_jac w"
    and "fst (evaluate_fun_with_grad w x) = w_fun w x (w_args w) (w_kwargs w)"
    and "w_fun w x (w_args w) (w_kwargs w) = Inr v \<Longrightarrow>
         last_value (snd (evaluate_fun_with_grad w x)) = Some v"
  using assms
  by (auto simp: evaluate_fun_with_grad_def np_all_eq_def Let_def split: option.splits sum.splits)

lemma evaluate_hit:
  assumes "last_x w = Some x"
  shows "snd (evaluate_fun_with_grad w x) = w"
  using assms
  by (auto simp: evaluate_fun_with_grad_def np_all_eq_def Let_def split: option.splits sum.splits)

lemma objective_combined:
  "fun_with_jac w \<noteq> None \<Longrightarrow> snd (objective w x) = snd (evaluate_fun_with_grad w x)"
  by (auto simp: objective_def split: prod.splits sum.splits)

lemma gradient_combined:
  "fun_with_jac w \<noteq> None \<Longrightarrow> snd (gradient w x) = snd (evaluate_fun_with_grad w x)"
  by (auto simp: gradient_def split: prod.splits sum.splits)

lemma objective_combined_value:
  "fun_with_jac w \<noteq> None \<Longrightarrow>
   fst (objective w x) =
     (case fst (evaluate_fun_with_grad w x) of Inl e \<Rightarrow> Inl e | Inr v \<Rightarrow> py_getitem v 0)"
  by (auto simp: objective_def split: prod.splits sum.splits)

lemma init_combined:
  assumes "IpoptProblemWrapper_init f args kwargs JacTrue hess hessp constrs eps = Inr w0"
  shows "fun_with_jac w0 = Some f \<and> last_x w0 = None \<and> nfev w0 = 0 \<and> njev w0 = 0"
  using assms
  by (auto simp: IpoptProblemWrapper_init_def split: if_splits sum.splits prod.splits)

text \<open>
  C1. An adapter constructed with \<open>jac=True\<close> is in combined mode, with an empty cache and
  both counters at zero. In combined mode, when \<open>x\<close> is not the cached point (no point is
  cached, or the cached point has the dimension of \<open>x\<close> and differs from it), \<open>objective(x)\<close>
  calls the combined evaluator once: the objective counter goes up by one, the gradient
  counter stays, and the cache holds \<open>x\<close> and the pair returned. \<open>gradient(x)\<close> straight after
  changes nothing, so the two calls together count one objective evaluation and no
  gradient evaluation. \<open>objective(y)\<close> at a different point \<open>y\<close> of the same dimension then
  counts a second objective evaluation and replaces the cached point.
\<close>

theorem combined_mode_counters:
  "(\<forall>w0. IpoptProblemWrapper_init f args kwargs JacTrue hess hessp constrs eps = Inr w0 \<longrightarrow>
      fun_with_jac w0 \<noteq> None \<and> last_x w0 = None \<and> nfev w0 = 0 \<and> njev w0 = 0) \<and>
   (\<forall>w. fun_with_jac w \<noteq> None \<and>
        (case last_x w of None \<Rightarrow> True | Some lx \<Rightarrow> lx \<noteq> x \<and> length lx = length x) \<longrightarrow>
      (let w1 = snd (objective w x); w2 = snd (gradient w1 x)
       in nfev w1 = nfev w + 1 \<and> njev w1 = njev w \<and> last_x w1 = Some x \<and>
          (\<forall>v. w_fun w x (w_args w) (w_kwargs w) = Inr v \<longrightarrow>
             last_value w1 = Some v \<and> fst (objective w x) = py_getitem v 0) \<and>
          w2 = w1 \<and> nfev w2 = nfev w + 1 \<and> njev w2 = njev w \<and>
          (\<forall>y. y \<noteq> x \<and> length y = length x \<longrightarrow>
             (let w3 = snd (objective w2 y)
              in nfev w3 = nfev w + 2 \<and> njev w3 = njev w \<and> last_x w3 = Some y))))"
  (is "?A \<and> ?B")
proof (rule conjI)
  show ?A
    using init_combined by blast
next
  show ?B
  proof (rule allI, rule impI)
  fix w :: wrapper
  assume a: "fun_with_jac w \<noteq> None \<and>
        (case last_x w of None \<Rightarrow> True | Some lx \<Rightarrow> lx \<noteq> x \<and> length lx = length x)"
  then have c: "fun_with_jac w \<noteq> None"
    and m: "case last_x w of None \<Rightarrow> True | Some lx \<Rightarrow> lx \<noteq> x \<and> length lx = length x"
    by simp_all
  define w1 where "w1 = snd (objective w x)"
  define w2 where "w2 = snd (gradient w1 x)"
  have w1: "w1 = snd (evaluate_fun_with_grad w x)"
    by (simp add: w1_def objective_combined [OF c])
  have n1: "nfev w1 = nfev w + 1"
    by (simp add: w1 evaluate_miss(1) [OF m])
  have j1: "njev w1 = njev w"
    by (simp add: w1 evaluate_miss(2) [OF m])
  have l1: "last_x w1 = Some x"
    by (simp add: w1 evaluate_miss(3) [OF m])
  have c1: "fun_with_jac w1 \<noteq> None"
    using c by (simp add: w1 evaluate_miss(4) [OF m])
  have v1: "\<forall>v. w_fun w x (w_args w) (w_kwargs w) = Inr v \<longrightarrow>
             last_value w1 = Some v \<and> fst (objective w x) = py_getitem v 0"
    using evaluate_miss(5,6) [OF m] by (simp add: w1 objective_combined_value [OF c])
  have w2: "w2 = w1"
    by (simp add: w2_def gradient_combined [OF c1] evaluate_hit [OF l1])
  have w3: "\<forall>y. y \<noteq> x \<and> length y = length x \<longrightarrow>
             (let w3 = snd (objective w2 y)
              in nfev w3 = nfev w + 2 \<and> njev w3 = njev w \<and> last_x w3 = Some y)"
  proof (intro allI impI)
    fix y
    assume y: "y \<noteq> x \<and> length y = length x"
    then have m2: "case last_x w1 of None \<Rightarrow> True | Some lx \<Rightarrow> lx \<noteq> y \<and> length lx = length y"
      by (auto simp: l1)
    show "let w3 = snd (objective w2 y)
              in nfev w3 = nfev w + 2 \<and> njev w3 = njev w \<and> last_x w3 = Some y"
      using evaluate_miss(1,2,3) [OF m2]
      by (simp add: w2 objective_combined [OF c1] n1 j1 Let_def)
  qed
  show "let w1 = snd (objective w x); w2 = snd (gradient w1 x)
       in nfev w1 = nfev w + 1 \<and> njev w1 = njev w \<and> last_x w1 = Some x \<and>
          (\<forall>v. w_fun w x (w_args w) (w_kwargs w) = Inr v \<longrightarrow>
             last_value w1 = Some v \<and> fst (objective w x) = py_getitem v 0) \<and>
          w2 = w1 \<and> nfev w2 = nfev w + 1 \<and> njev w2 = njev w \<and>
          (\<forall>y. y \<noteq> x \<and> length y = length x \<longrightarrow>
             (let w3 = snd (objective w2 y)
              in nfev w3 = nfev w + 2 \<and> njev w3 = njev w \<and> last_x w3 = Some y))"
    unfolding Let_def w1_def [symmetric] w2_def [symmetric]
    using n1 j1 l1 v1 w2 w3 by (simp add: Let_def)
  qed
qed

lemma ex_combined_init:
  "IpoptProblemWrapper_init ex_fun_grad [] None JacTrue None None (ManyCons []) (1 / 10 ^ 8) =
     Inr ex_combined"
  by (simp add: IpoptProblemWrapper_init_def ex_combined_def kwargs_or_empty_def)

theorem combined_mode_counters_witness:
  "IpoptProblemWrapper_init ex_fun_grad [] None JacTrue None None (ManyCons []) (1 / 10 ^ 8) =
     Inr ex_combined \<and>
   fun_with_jac ex_combined \<noteq> None \<and> last_x ex_combined = None \<and>
   nfev (snd (objective ex_combined [1, 2])) = 1 \<and>
   njev (snd (objective ex_combined [1, 2])) = 0 \<and>
   fst (objective ex_combined [1, 2]) = Inr (Num 5) \<and>
   nfev (snd (gradient (snd (objective ex_combined [1, 2])) [1, 2])) = 1 \<and>
   njev (snd (gradient (snd (objective ex_combined [1, 2])) [1, 2])) = 0 \<and>
   nfev (snd (objective (snd (gradient (snd (objective ex_combined [1, 2])) [1, 2])) [3, 4])) = 2 \<and>
   njev (snd (objective (snd (gradient (snd (objective ex_combined [1, 2])) [1, 2])) [3, 4])) = 0"
proof -
  have i: "IpoptProblemWrapper_init ex_fun_grad [] None JacTrue None None (ManyCons []) (1 / 10 ^ 8) =
     Inr ex_combined"
    by (rule ex_combined_init)
  have c: "fun_with_jac ex_combined \<noteq> None \<and>
        (case last_x ex_combined of None \<Rightarrow> True
         | Some lx \<Rightarrow> lx \<noteq> [1, 2] \<and> length lx = length [1, 2 :: real])"
    by (simp add: ex_combined_def)
  have f: "w_fun ex_combined [1, 2] (w_args ex_combined) (w_kwargs ex_combined) =
           Inr (Pair (Num 5) (Arr [2, 4]))"
    by (simp add: ex_combined_def ex_fun_grad_def)
  have y: "[3, 4] \<noteq> [1, 2 :: real] \<and> length [3, 4 :: real] = length [1, 2 :: real]"
    by simp
  have z: "nfev ex_combined = 0" "njev ex_combined = 0" "last_x ex_combined = None"
    "fun_with_jac ex_combined \<noteq> None"
    by (simp_all add: ex_combined_def)
  note t = combined_mode_counters [of ex_fun_grad "[]" None None None "ManyCons []" "1 / 10 ^ 8" "[1, 2]"]
  note t2 = t [THEN conjunct2, THEN spec, of ex_combined, THEN mp, OF c, unfolded Let_def]
  have g: "snd (gradient (snd (objective ex_combined [1, 2])) [1, 2]) =
           snd (objective ex_combined [1, 2])"
    using t2 by blast
  have n1: "nfev (snd (objective ex_combined [1, 2])) = 1"
    and j1: "njev (snd (objective ex_combined [1, 2])) = 0"
    using t2 z by simp_all
  have v: "fst (objective ex_combined [1, 2]) = Inr (Num 5)"
    using t2 f by simp
  have t3: "nfev (snd (objective (snd (gradient (snd (objective ex_combined [1, 2])) [1, 2])) [3, 4])) =
              nfev ex_combined + 2 \<and>
            njev (snd (objective (snd (gradient (snd (objective ex_combined [1, 2])) [1, 2])) [3, 4])) =
              njev ex_combined"
    using t2 y by blast
  show ?thesis
    using i n1 j1 v t3 by (simp add: g z)
qed

section \<open>Constraints without a Jacobian; the standalone gradient\<close>

lemma init_constraints_missing_jac:
  "\<exists>c\<in>set cs. con_jac c = None \<Longrightarrow>
   init_constraints cs acc = Inl (NameError ''FunctionWithApproxJacobian'')"
  by (cases acc) (auto simp: init_constraints_acc list_all_iff)

text \<open>
  C2. With no Hessian argument and a gradient specification the constructor accepts, a
  constraint specification without \<open>jac\<close> makes the construction of the adapter raise
  \<open>NameError\<close> for \<open>FunctionWithApproxJacobian\<close>; the entry operation raises the same
  error before it reaches the solver. No finite-difference Jacobian is synthesized.
\<close>

theorem constraint_without_jacobian_raises:
  assumes "hess = None" and "hessp = None" and "jac \<noteq> JacOther"
    and "\<exists>c\<in>set (as_tuple constrs). con_jac c = None"
  shows "IpoptProblemWrapper_init f args kwargs jac hess hessp constrs eps =
           Inl (NameError ''FunctionWithApproxJacobian'') \<and>
         minimize_ipopt s f x0 args kwargs jac hess hessp bounds constrs tol options h =
           (Inl (NameError ''FunctionWithApproxJacobian''), h, [])"
proof -
  have i: "IpoptProblemWrapper_init f args kwargs jac hess hessp constrs e =
           Inl (NameError ''FunctionWithApproxJacobian'')" for e
    using assms(1,2,3) init_constraints_missing_jac [OF assms(4)]
    by (cases jac) (simp_all add: IpoptProblemWrapper_init_def)
  show ?thesis
    by (simp add: minimize_ipopt_def i)
qed

theorem constraint_without_jacobian_raises_witness:
  "IpoptProblemWrapper_init ex_fun [] None JacNone None None (OneCon ex_nojac) (1 / 10 ^ 8) =
     Inl (NameError ''FunctionWithApproxJacobian'') \<and>
   minimize_ipopt ex_solver ex_fun (Vec [1, 2]) [] None JacNone None None None (OneCon ex_nojac)
     None None ex_store =
     (Inl (NameError ''FunctionWithApproxJacobian''), ex_store, [])"
  using constraint_without_jacobian_raises [of None None JacNone "OneCon ex_nojac" ex_fun "[]"
      None "1 / 10 ^ 8" ex_solver "Vec [1, 2]" None None None ex_store]
  by (simp add: ex_nojac_def)

lemma fd_loop_total:
  assumes "\<forall>k\<in>set ks. f (fd_point xk eps k) = Inr (Num (g (fd_point xk eps k)))"
  shows "fd_loop f xk eps f0 ks = Inr (map (\<lambda>k. (g (fd_point xk eps k) - f0) / eps) ks)"
  using assms by (induction ks) auto

lemma approx_fprime_total:
  assumes "\<forall>p\<in>set (approx_fprime_points xk eps). f p args [] = Inr (Num (g p))"
  shows "approx_fprime xk f eps args [] =
           Inr (Arr (map (\<lambda>k. (g (fd_point xk eps k) - g xk) / eps) [0..<length xk]))"
proof -
  have 0: "f xk args [] = Inr (Num (g xk))"
    using assms by (simp add: approx_fprime_points_def)
  have "\<forall>k\<in>set [0..<length xk]. f (fd_point xk eps k) args [] = Inr (Num (g (fd_point xk eps k)))"
    using assms by (simp add: approx_fprime_points_def)
  from fd_loop_total [of "[0..<length xk]" "\<lambda>x. f x args []" xk eps g, OF this]
  show ?thesis
    by (simp add: approx_fprime_def 0)
qed

lemma init_standalone:
  assumes "IpoptProblemWrapper_init f args kwargs jac hess hessp constrs eps = Inr w0"
    and "jac \<noteq> JacTrue"
  shows "fun_with_jac w0 = None \<and> nfev w0 = 0 \<and> njev w0 = 0 \<and>
         w_fun w0 = f \<and> w_args w0 = args \<and> w_kwargs w0 = kwargs_or_empty kwargs \<and>
         (jac = JacNone \<longrightarrow> w_jac w0 = JFun (\<lambda>x0 a k. approx_fprime x0 f eps a k)) \<and>
         (\<forall>g. jac = JacCallable g \<longrightarrow> w_jac w0 = JFun g)"
  using assms
  by (cases jac) (auto simp: IpoptProblemWrapper_init_def split: if_splits sum.splits prod.splits)

text \<open>
  C10. Outside combined mode every call of \<open>gradient\<close> adds one to the gradient counter and
  leaves the objective counter alone. An adapter constructed with \<open>jac\<close> other than \<open>True\<close>
  is outside combined mode; with \<open>jac=None\<close> its gradient is \<open>approx_fprime\<close> applied to the
  objective itself, with a callable it is that callable. \<open>approx_fprime\<close> reads the
  objective at \<open>n + 1\<close> points, the point and one step along each coordinate, and
  none of these evaluations goes through \<open>objective\<close>.
\<close>

theorem standalone_gradient_counters:
  "(\<forall>w. fun_with_jac w = None \<longrightarrow>
       njev (snd (gradient w x)) = njev w + 1 \<and> nfev (snd (gradient w x)) = nfev w \<and>
       fun_with_jac (snd (gradient w x)) = None) \<and>
   (\<forall>w0. IpoptProblemWrapper_init f args kwargs jac hess hessp constrs eps = Inr w0 \<and>
         jac \<noteq> JacTrue \<longrightarrow>
       fun_with_jac w0 = None \<and>
       (jac = JacNone \<longrightarrow>
          fst (gradient w0 x) = approx_fprime x f eps args (kwargs_or_empty kwargs)) \<and>
       (\<forall>g. jac = JacCallable g \<longrightarrow>
          fst (gradient w0 x) = g x args (kwargs_or_empty kwargs))) \<and>
   length (approx_fprime_points x eps) = length x + 1 \<and>
   (\<forall>g. (\<forall>p\<in>set (approx_fprime_points x eps). f p args [] = Inr (Num (g p))) \<longrightarrow>
      approx_fprime x f eps args [] =
        Inr (Arr (map (\<lambda>k. (g (fd_point x eps k) - g x) / eps) [0..<length x])))"
  (is "?A \<and> ?B \<and> ?C \<and> ?D")
proof (intro conjI)
  show ?A
    by (auto simp: gradient_def Let_def)
next
  show ?B
  proof (rule allI, rule impI)
    fix w0 :: wrapper
    assume a: "IpoptProblemWrapper_init f args kwargs jac hess hessp constrs eps = Inr w0 \<and>
         jac \<noteq> JacTrue"
    from init_standalone [of f args kwargs jac hess hessp constrs eps w0] a
    show "fun_with_jac w0 = None \<and>
       (jac = JacNone \<longrightarrow>
          fst (gradient w0 x) = approx_fprime x f eps args (kwargs_or_empty kwargs)) \<and>
       (\<forall>g. jac = JacCallable g \<longrightarrow>
          fst (gradient w0 x) = g x args (kwargs_or_empty kwargs))"
      by (auto simp: gradient_def Let_def)
  qed
next
  show ?C
    by (simp add: approx_fprime_points_def)
next
  show ?D
    using approx_fprime_total by blast
qed

lemma ex_standalone_init:
  "IpoptProblemWrapper_init ex_fun [] None JacNone None None (ManyCons []) (1 / 10 ^ 8) =
     Inr ex_standalone"
  by (simp add: IpoptProblemWrapper_init_def ex_standalone_def kwargs_or_empty_def)

theorem standalone_gradient_counters_witness:
  "IpoptProblemWrapper_init ex_fun [] None JacNone None None (ManyCons []) (1 / 10 ^ 8) =
     Inr ex_standalone \<and>
   fun_with_jac ex_standalone = None \<and>
   njev (snd (gradient ex_standalone [1, 2])) = 1 \<and>
   nfev (snd (gradient ex_standalone [1, 2])) = 0 \<and>
   fst (gradient ex_standalone [1, 2]) = approx_fprime [1, 2] ex_fun (1 / 10 ^ 8) [] [] \<and>
   length (approx_fprime_points [1, 2] (1 / 10 ^ 8)) = 3"
proof -
  note t = standalone_gradient_counters [of "[1, 2]" ex_fun "[]" None JacNone None None
      "ManyCons []" "1 / 10 ^ 8"]
  have z: "fun_with_jac ex_standalone = None" "njev ex_standalone = 0" "nfev ex_standalone = 0"
    by (simp_all add: ex_standalone_def)
  note a = t [THEN conjunct1, THEN spec, of ex_standalone, THEN mp, OF z(1)]
  have i: "IpoptProblemWrapper_init ex_fun [] None JacNone None None (ManyCons []) (1 / 10 ^ 8) =
       Inr ex_standalone \<and> JacNone \<noteq> JacTrue"
    using ex_standalone_init by simp
  note b = t [THEN conjunct2, THEN conjunct1, THEN spec, of ex_standalone, THEN mp, OF i]
  note c = t [THEN conjunct2, THEN conjunct2, THEN conjunct1]
  have g: "fst (gradient ex_standalone [1, 2]) = approx_fprime [1, 2] ex_fun (1 / 10 ^ 8) [] []"
    using b by (simp add: kwargs_or_empty_def)
  have n: "njev (snd (gradient ex_standalone [1, 2])) = 1"
    "nfev (snd (gradient ex_standalone [1, 2])) = 0"
    using a by (simp_all add: z)
  have l: "length (approx_fprime_points [1, 2 :: real] (1 / 10 ^ 8)) = 3"
    using c by simp
  show ?thesis
    using ex_standalone_init z(1) n g l by blast
qed

section \<open>Option translation\<close>

lemma has_key_map_of: "has_key d k \<longleftrightarrow> map_of d k \<noteq> None"
  by (simp add: has_key_def map_of_eq_None_iff)

lemma map_of_replace_option:
  "old \<noteq> new \<Longrightarrow>
   map_of (replace_option d old new) k =
     (if map_of d old \<noteq> None \<and> map_of d new = None
      then (if k = new then map_of d old else if k = old then None else map_of d k)
      else map_of d k)"
  by (auto simp: replace_option_def has_key_map_of update_conv' delete_conv' split: option.splits)

lemma map_of_set_if_absent:
  "map_of (set_if_absent d k v) k' =
     (if k' = k \<and> map_of d k = None then Some v else map_of d k')"
  by (auto simp: set_if_absent_def has_key_map_of update_conv')

lemma add_options_events:
  "add_options s d evs = (r, evs') \<Longrightarrow>
   set evs' \<subseteq> set evs \<union> (\<lambda>(k, v). AddOption k v) ` set d"
proof (induction d arbitrary: evs)
  case Nil
  then show ?case by auto
next
  case (Cons kv d)
  obtain k v where kv: "kv = (k, v)" by (cases kv)
  show ?case
  proof (cases "addOption s k v")
    case None
    with Cons.prems kv have "add_options s d (evs @ [AddOption k v]) = (r, evs')"
      by (simp add: Let_def)
    from Cons.IH [OF this] kv show ?thesis by auto
  next
    case (Some e)
    with Cons.prems kv have "evs' = evs @ [AddOption k v]"
      by (cases e) (auto simp: Let_def)
    with kv show ?thesis by auto
  qed
qed

lemma map_of_rename_disp:
  "map_of (rename_options d) ''disp'' =
     (if map_of d ''print_level'' = None then None else map_of d ''disp'')"
  by (auto simp: rename_options_def map_of_replace_option)

lemma map_of_rename_maxiter:
  "map_of (rename_options d) ''maxiter'' =
     (if map_of d ''max_iter'' = None then None else map_of d ''maxiter'')"
  by (auto simp: rename_options_def map_of_replace_option)

lemma map_of_rename_print_level:
  "map_of (rename_options d) ''print_level'' =
     (if map_of d ''print_level'' = None then map_of d ''disp'' else map_of d ''print_level'')"
  by (auto simp: rename_options_def map_of_replace_option)

lemma map_of_rename_max_iter:
  "map_of (rename_options d) ''max_iter'' =
     (if map_of d ''max_iter'' = None then map_of d ''maxiter'' else map_of d ''max_iter'')"
  by (auto simp: rename_options_def map_of_replace_option)

lemma map_of_default_other:
  assumes "k \<noteq> ''print_level''" "k \<noteq> ''tol''" "k \<noteq> ''mu_strategy''"
    "k \<noteq> ''hessian_approximation''"
  shows "map_of (default_options d tol hess hessp) k = map_of d k"
  using assms
  by (simp add: default_options_def Let_def map_of_set_if_absent update_conv')

lemma map_of_default_print_level:
  "map_of (default_options d tol hess hessp) ''print_level'' =
     (if map_of d ''print_level'' = None then Some (PInt 0) else map_of d ''print_level'')"
  by (simp add: default_options_def Let_def map_of_set_if_absent update_conv')

lemma map_of_translate_disp:
  "map_of (translate_options d tol hess hessp) ''disp'' =
     (if map_of d ''print_level'' = None then None else map_of d ''disp'')"
  by (simp add: translate_options_def map_of_default_other map_of_rename_disp)

lemma map_of_translate_maxiter:
  "map_of (translate_options d tol hess hessp) ''maxiter'' =
     (if map_of d ''max_iter'' = None then None else map_of d ''maxiter'')"
  by (simp add: translate_options_def map_of_default_other map_of_rename_maxiter)

lemma map_of_translate_print_level:
  "map_of (translate_options d tol hess hessp) ''print_level'' =
     (if map_of d ''print_level'' \<noteq> None then map_of d ''print_level''
      else if map_of d ''disp'' \<noteq> None then map_of d ''disp'' else Some (PInt 0))"
  by (auto simp: translate_options_def map_of_default_print_level map_of_rename_print_level)

lemma map_of_translate_max_iter:
  "map_of (translate_options d tol hess hessp) ''max_iter'' =
     (if map_of d ''max_iter'' \<noteq> None then map_of d ''max_iter'' else map_of d ''maxiter'')"
  by (auto simp: translate_options_def map_of_default_other map_of_rename_max_iter)

lemma replace_option_unchanged:
  "has_key d new \<or> \<not> has_key d old \<Longrightarrow> replace_option d old new = d"
  by (auto simp: replace_option_def has_key_map_of split: option.splits)

lemma replace_option_renamed:
  assumes "map_of d old = Some v" "\<not> has_key d new" "old \<noteq> new"
  shows "map_of (replace_option d old new) new = Some v"
    and "\<not> has_key (replace_option d old new) old"
    and "k \<noteq> old \<Longrightarrow> k \<noteq> new \<Longrightarrow> map_of (replace_option d old new) k = map_of d k"
  using assms by (simp_all add: has_key_map_of map_of_replace_option)

lemma add_options_mem:
  "add_options s d [Created n m] = (r, evs') \<Longrightarrow> AddOption k v \<in> set evs' \<Longrightarrow> (k, v) \<in> set d"
  by (drule add_options_events) auto

lemma minimize_events:
  assumes "AddOption k v \<in> set (snd (snd (minimize_ipopt s f x0 args kwargs jac hess hessp bounds constrs tol options h)))"
  shows "(k, v) \<in> set (translate_options (case options of None \<Rightarrow> [] | Some a \<Rightarrow> cells h a) tol hess hessp)"
  using assms
  by (cases options)
    (auto simp: minimize_ipopt_def Let_def new_dict_def
      split: sum.splits prod.splits option.splits if_splits list.splits
      dest: add_options_mem)

lemma add_options_accepted:
  "add_options s d evs = (None, evs') \<Longrightarrow> evs' = evs @ map (\<lambda>(k, v). AddOption k v) d"
proof (induction d arbitrary: evs)
  case Nil
  then show ?case by simp
next
  case (Cons kv d)
  obtain k v where kv: "kv = (k, v)" by (cases kv)
  show ?case
  proof (cases "addOption s k v")
    case None
    with Cons.prems kv have "add_options s d (evs @ [AddOption k v]) = (None, evs')"
      by (simp add: Let_def)
    from Cons.IH [OF this] kv show ?thesis by simp
  next
    case (Some e)
    with Cons.prems kv show ?thesis
      by (cases e) (simp_all add: Let_def)
  qed
qed

lemma minimize_ipopt_passes_all:
  assumes "minimize_ipopt s f x0 args kwargs jac hess hessp bounds constrs tol options h =
             (Inr r, h', evs)"
    and "(k, v) \<in> set (translate_options (case options of None \<Rightarrow> [] | Some a \<Rightarrow> cells h a)
                          tol hess hessp)"
  shows "AddOption k v \<in> set evs"
  using assms
  by (cases options)
    (auto simp: minimize_ipopt_def Let_def new_dict_def
      split: sum.splits prod.splits option.splits if_splits list.splits
      dest!: add_options_accepted)



text \<open>
  C3. The claim does not hold of the code. \<open>replace_option\<close> does nothing when the target
  name is already a key: the alias is neither renamed nor dropped. So when the caller
  gives both \<open>disp\<close> and \<open>print_level\<close> (or both \<open>maxiter\<close> and \<open>max_iter\<close>), the alias is still
  a key of the translated dictionary, with the caller's value, next to the untouched
  target; and whenever the entry operation returns a result, the alias was passed to the
  solver with \<open>addOption\<close>.
\<close>

theorem alias_kept_when_target_present:
  "(has_key options old \<and> has_key options new \<longrightarrow> replace_option options old new = options) \<and>
   (has_key options ''disp'' \<and> has_key options ''print_level'' \<longrightarrow>
      has_key (translate_options options tol hess hessp) ''disp'' \<and>
      map_of (translate_options options tol hess hessp) ''disp'' = map_of options ''disp'' \<and>
      map_of (translate_options options tol hess hessp) ''print_level'' =
        map_of options ''print_level'') \<and>
   (has_key options ''maxiter'' \<and> has_key options ''max_iter'' \<longrightarrow>
      has_key (translate_options options tol hess hessp) ''maxiter'' \<and>
      map_of (translate_options options tol hess hessp) ''maxiter'' = map_of options ''maxiter'' \<and>
      map_of (translate_options options tol hess hessp) ''max_iter'' =
        map_of options ''max_iter'') \<and>
   (\<forall>r h' evs.
      minimize_ipopt s f x0 args kwargs jac hess hessp bounds constrs tol (Some a) h =
        (Inr r, h', evs) \<longrightarrow>
      (has_key (cells h a) ''disp'' \<and> has_key (cells h a) ''print_level'' \<longrightarrow>
         (\<exists>v. map_of (cells h a) ''disp'' = Some v \<and> AddOption ''disp'' v \<in> set evs)) \<and>
      (has_key (cells h a) ''maxiter'' \<and> has_key (cells h a) ''max_iter'' \<longrightarrow>
         (\<exists>v. map_of (cells h a) ''maxiter'' = Some v \<and> AddOption ''maxiter'' v \<in> set evs)))"
  (is "?A \<and> ?B \<and> ?C \<and> ?D")
proof (intro conjI)
  show ?A using replace_option_unchanged by blast
  show ?B by (auto simp: has_key_map_of map_of_translate_disp map_of_translate_print_level)
  show ?C by (auto simp: has_key_map_of map_of_translate_maxiter map_of_translate_max_iter)
  show ?D
  proof (intro allI impI conjI)
    fix r h' evs
    assume m: "minimize_ipopt s f x0 args kwargs jac hess hessp bounds constrs tol (Some a) h =
        (Inr r, h', evs)"
    note p = minimize_ipopt_passes_all [OF m, simplified]
    {
      assume "has_key (cells h a) ''disp'' \<and> has_key (cells h a) ''print_level''"
      then obtain v where v: "map_of (cells h a) ''disp'' = Some v"
        and "map_of (translate_options (cells h a) tol hess hessp) ''disp'' = Some v"
        by (auto simp: has_key_map_of map_of_translate_disp)
      then have "(''disp'', v) \<in> set (translate_options (cells h a) tol hess hessp)"
        by (simp add: map_of_SomeD)
      from p [OF this] v
      show "\<exists>v. map_of (cells h a) ''disp'' = Some v \<and> AddOption ''disp'' v \<in> set evs"
        by blast
    }
    {
      assume "has_key (cells h a) ''maxiter'' \<and> has_key (cells h a) ''max_iter''"
      then obtain v where v: "map_of (cells h a) ''maxiter'' = Some v"
        and "map_of (translate_options (cells h a) tol hess hessp) ''maxiter'' = Some v"
        by (auto simp: has_key_map_of map_of_translate_maxiter)
      then have "(''maxiter'', v) \<in> set (translate_options (cells h a) tol hess hessp)"
        by (simp add: map_of_SomeD)
      from p [OF this] v
      show "\<exists>v. map_of (cells h a) ''maxiter'' = Some v \<and> AddOption ''maxiter'' v \<in> set evs"
        by blast
    }
  qed
qed


lemma ex_translate:
  "translate_options [(''disp'', PInt 5), (''maxiter'', PInt 100)] None None None =
     [(''print_level'', PInt 5), (''max_iter'', PInt 100), (''tol'', PFloat (1 / 10 ^ 8)),
      (''mu_strategy'', PStr ''adaptive''), (''hessian_approximation'', PStr ''limited-memory'')]"
  by (simp add: translate_options_def rename_options_def default_options_def replace_option_def
      set_if_absent_def has_key_def tol_or_default_def AList.delete_eq)

lemma ex_minimize_events:
  "snd (snd (minimize_ipopt ex_solver ex_fun (Vec [1, 2]) [] None JacNone None None None
               (ManyCons []) None (Some 0) ex_store)) =
     [Created 2 0, AddOption ''print_level'' (PInt 5), AddOption ''max_iter'' (PInt 100),
      AddOption ''tol'' (PFloat (1 / 10 ^ 8)), AddOption ''mu_strategy'' (PStr ''adaptive''),
      AddOption ''hessian_approximation'' (PStr ''limited-memory''), Solve [1, 2]]"
proof -
  have c: "cells ex_store 0 = [(''disp'', PInt 5), (''maxiter'', PInt 100)]"
    by (simp add: ex_store_def)
  have i: "IpoptProblemWrapper_init ex_fun [] None JacNone None None (ManyCons []) (1 / 10 ^ 8) =
     Inr ex_standalone"
    by (rule ex_standalone_init)
  have g: "get_constraint_bounds (ManyCons []) (Vec [1, 2]) INF_default = Inr ([], [])"
    by (simp add: get_constraint_bounds_def)
  have t: "translate_options [(''disp'', PInt 5), (''maxiter'', PInt 100)] None None None =
     [(''print_level'', PInt 5), (''max_iter'', PInt 100), (''tol'', PFloat (1 / 100000000)),
      (''mu_strategy'', PStr ''adaptive''), (''hessian_approximation'', PStr ''limited-memory'')]"
    using ex_translate by simp
  show ?thesis
    using i g
    by (simp add: minimize_ipopt_def get_bounds_def c t Let_def ex_solver_def is_scalar_def)
qed

lemma ex_minimize_result:
  "fst (minimize_ipopt ex_solver ex_fun (Vec [1, 2]) [] None JacNone None None None
               (ManyCons []) None (Some 0) ex_store) = Inr ex_result"
proof -
  have c: "cells ex_store 0 = [(''disp'', PInt 5), (''maxiter'', PInt 100)]"
    by (simp add: ex_store_def)
  have i: "IpoptProblemWrapper_init ex_fun [] None JacNone None None (ManyCons []) (1 / 10 ^ 8) =
     Inr ex_standalone"
    by (rule ex_standalone_init)
  have g: "get_constraint_bounds (ManyCons []) (Vec [1, 2]) INF_default = Inr ([], [])"
    by (simp add: get_constraint_bounds_def)
  have t: "translate_options [(''disp'', PInt 5), (''maxiter'', PInt 100)] None None None =
     [(''print_level'', PInt 5), (''max_iter'', PInt 100), (''tol'', PFloat (1 / 100000000)),
      (''mu_strategy'', PStr ''adaptive''), (''hessian_approximation'', PStr ''limited-memory'')]"
    using ex_translate by simp
  have o: "snd (objective ex_standalone [1, 2]) = ex_standalone\<lparr>nfev := 1\<rparr>"
    by (simp add: objective_def ex_standalone_def)
  have gr: "snd (gradient (ex_standalone\<lparr>nfev := 1\<rparr>) [1, 2]) = ex_standalone\<lparr>nfev := 1, njev := 1\<rparr>"
    by (simp add: gradient_def ex_standalone_def)
  show ?thesis
    using i g
    by (simp add: minimize_ipopt_def get_bounds_def c t Let_def ex_solver_def is_scalar_def
        o gr intermediate_def ex_result_def)
qed

lemma ex_translate_both:
  "translate_options [(''disp'', PInt 5), (''print_level'', PInt 1)] None None None =
     [(''disp'', PInt 5), (''print_level'', PInt 1), (''tol'', PFloat (1 / 10 ^ 8)),
      (''mu_strategy'', PStr ''adaptive''), (''hessian_approximation'', PStr ''limited-memory'')]"
  by (simp add: translate_options_def rename_options_def default_options_def replace_option_def
      set_if_absent_def has_key_def tol_or_default_def AList.delete_eq)

lemma ex_minimize_both_rejected:
  "fst (minimize_ipopt ex_solver ex_fun (Vec [1, 2]) [] None JacNone None None None
          (ManyCons []) None (Some 0) ex_store_both) =
     Inl (InvalidOption ''disp'' (PInt 5) ''unknown option'') \<and>
   snd (snd (minimize_ipopt ex_solver ex_fun (Vec [1, 2]) [] None JacNone None None None
               (ManyCons []) None (Some 0) ex_store_both)) =
     [Created 2 0, AddOption ''disp'' (PInt 5)]"
proof -
  have c: "cells ex_store_both 0 = [(''disp'', PInt 5), (''print_level'', PInt 1)]"
    by (simp add: ex_store_both_def)
  have g: "get_constraint_bounds (ManyCons []) (Vec [1, 2]) INF_default = Inr ([], [])"
    by (simp add: get_constraint_bounds_def)
  show ?thesis
    using ex_standalone_init g ex_translate_both
    by (simp add: minimize_ipopt_def get_bounds_def c Let_def ex_solver_def is_scalar_def)
qed

lemma ex_minimize_both_accepted:
  "fst (minimize_ipopt ex_solver_any ex_fun (Vec [1, 2]) [] None JacNone None None None
          (ManyCons []) None (Some 0) ex_store_both) = Inr ex_result"
proof -
  have c: "cells ex_store_both 0 = [(''disp'', PInt 5), (''print_level'', PInt 1)]"
    by (simp add: ex_store_both_def)
  have g: "get_constraint_bounds (ManyCons []) (Vec [1, 2]) INF_default = Inr ([], [])"
    by (simp add: get_constraint_bounds_def)
  have o: "snd (objective ex_standalone [1, 2]) = ex_standalone\<lparr>nfev := 1\<rparr>"
    by (simp add: objective_def ex_standalone_def)
  have gr: "snd (gradient (ex_standalone\<lparr>nfev := 1\<rparr>) [1, 2]) = ex_standalone\<lparr>nfev := 1, njev := 1\<rparr>"
    by (simp add: gradient_def ex_standalone_def)
  show ?thesis
    using ex_standalone_init g ex_translate_both
    by (simp add: minimize_ipopt_def get_bounds_def c Let_def ex_solver_any_def ex_solver_def
        is_scalar_def o gr intermediate_def ex_result_def)
qed

theorem alias_kept_when_target_present_witness:
  "replace_option [(''disp'', PInt 5), (''print_level'', PInt 1)] ''disp'' ''print_level'' =
     [(''disp'', PInt 5), (''print_level'', PInt 1)] \<and>
   has_key (translate_options [(''disp'', PInt 5), (''print_level'', PInt 1)] None None None) ''disp'' \<and>
   map_of (translate_options [(''disp'', PInt 5), (''print_level'', PInt 1)] None None None)
     ''print_level'' = Some (PInt 1) \<and>
   fst (minimize_ipopt ex_solver_any ex_fun (Vec [1, 2]) [] None JacNone None None None
          (ManyCons []) None (Some 0) ex_store_both) = Inr ex_result \<and>
   AddOption ''disp'' (PInt 5) \<in>
     set (snd (snd (minimize_ipopt ex_solver_any ex_fun (Vec [1, 2]) [] None JacNone None None None
                      (ManyCons []) None (Some 0) ex_store_both))) \<and>
   fst (minimize_ipopt ex_solver ex_fun (Vec [1, 2]) [] None JacNone None None None
          (ManyCons []) None (Some 0) ex_store_both) =
     Inl (InvalidOption ''disp'' (PInt 5) ''unknown option'') \<and>
   snd (snd (minimize_ipopt ex_solver ex_fun (Vec [1, 2]) [] None JacNone None None None
               (ManyCons []) None (Some 0) ex_store_both)) =
     [Created 2 0, AddOption ''disp'' (PInt 5)]"
proof -
  let ?d = "[(''disp'', PInt 5), (''print_level'', PInt 1)]"
  have k: "has_key ?d ''disp''" "has_key ?d ''print_level''"
    by (simp_all add: has_key_def)
  have c: "cells ex_store_both 0 = ?d"
    by (simp add: ex_store_both_def)
  obtain h' evs where m: "minimize_ipopt ex_solver_any ex_fun (Vec [1, 2]) [] None JacNone None None
      None (ManyCons []) None (Some 0) ex_store_both = (Inr ex_result, h', evs)"
    using ex_minimize_both_accepted
    by (cases "minimize_ipopt ex_solver_any ex_fun (Vec [1, 2]) [] None JacNone None None
      None (ManyCons []) None (Some 0) ex_store_both") auto
  note t = alias_kept_when_target_present [where options = ?d and old = "''disp''"
      and new = "''print_level''" and tol = None and hess = None and hessp = None
      and s = ex_solver_any and f = ex_fun and ?x0.0 = "Vec [1, 2]" and args = "[]"
      and kwargs = None and jac = JacNone and bounds = None and constrs = "ManyCons []"
      and a = 0 and h = ex_store_both]
  have 1: "replace_option ?d ''disp'' ''print_level'' = ?d"
    using t k by blast
  have 2: "has_key (translate_options ?d None None None) ''disp''"
    using t k by blast
  have 3: "map_of (translate_options ?d None None None) ''print_level'' = Some (PInt 1)"
    using t k by simp
  have "\<exists>v. map_of (cells ex_store_both 0) ''disp'' = Some v \<and> AddOption ''disp'' v \<in> set evs"
    using t m k c by simp
  then have 4: "AddOption ''disp'' (PInt 5) \<in>
     set (snd (snd (minimize_ipopt ex_solver_any ex_fun (Vec [1, 2]) [] None JacNone None None None
                      (ManyCons []) None (Some 0) ex_store_both)))"
    by (simp add: c m)
  show ?thesis
    using 1 2 3 4 ex_minimize_both_accepted ex_minimize_both_rejected by blast
qed

section \<open>Constraint bounds\<close>

lemma constraint_bounds_loop_ok:
  assumes "\<forall>c\<in>set cs. (con_type c = ''eq'' \<or> con_type c = ''ineq'') \<and>
                       (\<exists>v. con_fun c x0 (get_args c) = Inr v)"
  shows "constraint_bounds_loop cs x0 INFv (cl, cu) =
           Inr (cl @ concat (map (\<lambda>c. replicate (arity_at c x0) 0) cs),
                cu @ concat (map (\<lambda>c. replicate (arity_at c x0)
                                         (if con_type c = ''eq'' then 0 else INFv)) cs))"
  using assms
proof (induction cs arbitrary: cl cu)
  case Nil
  then show ?case by simp
next
  case (Cons c cs)
  then obtain v where v: "con_fun c x0 (get_args c) = Inr v" by auto
  have t: "con_type c = ''eq'' \<or> con_type c = ''ineq''" using Cons.prems by simp
  have r: "\<forall>c\<in>set cs. (con_type c = ''eq'' \<or> con_type c = ''ineq'') \<and>
                       (\<exists>v. con_fun c x0 (get_args c) = Inr v)"
    using Cons.prems by simp
  have a: "arity_at c x0 = length (atleast_1d v)" by (simp add: arity_at_def v)
  show ?case
  proof (cases "con_type c = ''eq''")
    case True
    then show ?thesis
      by (simp add: v Let_def Cons.IH [OF r] a)
  next
    case False
    with t have i: "con_type c = ''ineq''" by simp
    show ?thesis
      by (simp add: v Let_def Cons.IH [OF r] a i map_replicate_const)
  qed
qed

text \<open>
  C4. When every constraint is of kind \<open>eq\<close> or \<open>ineq\<close> and every constraint function
  returns at the probe point, \<open>get_constraint_bounds\<close> returns \<open>cl\<close> and \<open>cu\<close> of the same
  length, the sum of the \<open>m_i\<close>. In list order, each constraint contributes \<open>m_i\<close> zeros to
  \<open>cl\<close>, and to \<open>cu\<close> it contributes \<open>m_i\<close> zeros when it is an equality and \<open>m_i\<close> copies of
  the sentinel when it is an inequality.
\<close>

theorem constraint_bounds_shape:
  assumes "\<forall>c\<in>set (as_tuple constrs).
             (con_type c = ''eq'' \<or> con_type c = ''ineq'') \<and>
             (\<exists>v. con_fun c x0 (get_args c) = Inr v)"
  shows "\<exists>cl cu. get_constraint_bounds constrs x0 INFv = Inr (cl, cu) \<and>
           cl = concat (map (\<lambda>c. replicate (arity_at c x0) 0) (as_tuple constrs)) \<and>
           cu = concat (map (\<lambda>c. replicate (arity_at c x0)
                                    (if con_type c = ''eq'' then 0 else INFv))
                          (as_tuple constrs)) \<and>
           length cl = sum_list (map (\<lambda>c. arity_at c x0) (as_tuple constrs)) \<and>
           length cu = length cl"
proof -
  have "length (concat (map (\<lambda>c. replicate (arity_at c x0) (z c)) cs)) =
        sum_list (map (\<lambda>c. arity_at c x0) cs)" for z :: "constraint \<Rightarrow> real" and cs
    by (induction cs) simp_all
  then show ?thesis
    using constraint_bounds_loop_ok [OF assms, of INFv "[]" "[]"]
    by (simp add: get_constraint_bounds_def)
qed

theorem constraint_bounds_shape_witness:
  "get_constraint_bounds (ManyCons [ex_ineq, ex_eq]) (Vec [1, 2]) INF_default =
     Inr ([0, 0, 0], [10 ^ 19, 10 ^ 19, 0]) \<and>
   arity_at ex_ineq (Vec [1, 2]) = 2 \<and> arity_at ex_eq (Vec [1, 2]) = 1"
proof -
  have h: "\<forall>c\<in>set (as_tuple (ManyCons [ex_ineq, ex_eq])).
             (con_type c = ''eq'' \<or> con_type c = ''ineq'') \<and>
             (\<exists>v. con_fun c (Vec [1, 2]) (get_args c) = Inr v)"
    by (simp add: ex_ineq_def ex_eq_def ex_con_fun_def ex_con2_fun_def)
  have a: "arity_at ex_ineq (Vec [1, 2]) = 2" "arity_at ex_eq (Vec [1, 2]) = 1"
    by (simp_all add: arity_at_def ex_ineq_def ex_eq_def ex_con_fun_def ex_con2_fun_def get_args_def)
  have t: "con_type ex_ineq = ''ineq''" "con_type ex_eq = ''eq''"
    by (simp_all add: ex_ineq_def ex_eq_def)
  from constraint_bounds_shape [OF h, of INF_default]
  have "get_constraint_bounds (ManyCons [ex_ineq, ex_eq]) (Vec [1, 2]) INF_default =
     Inr ([0, 0, 0], [INF_default, INF_default, 0])"
    by (simp add: a t numeral_2_eq_2)
  then show ?thesis
    using a by (simp add: INF_default_def)
qed

lemma constraint_bounds_loop_fails:
  assumes "\<forall>p\<in>set pre. con_type p = ''eq'' \<or> con_type p = ''ineq''"
    and "con_type c \<noteq> ''eq''" and "con_type c \<noteq> ''ineq''"
  shows "\<exists>e. constraint_bounds_loop (pre @ c # post) x0 INFv (cl, cu) = Inl e"
  using assms(1)
proof (induction pre arbitrary: cl cu)
  case Nil
  show ?case using assms(2,3) by (simp add: Let_def split: sum.splits)
next
  case (Cons p pre)
  then show ?case by (auto simp: Let_def split: sum.splits)
qed

lemma constraint_bounds_loop_bad_kind:
  assumes "\<forall>p\<in>set pre. con_type p = ''eq'' \<or> con_type p = ''ineq''"
    and "con_type c \<noteq> ''eq''" and "con_type c \<noteq> ''ineq''"
    and "\<forall>p\<in>set (pre @ [c]). \<exists>v. con_fun p x0 (get_args p) = Inr v"
  shows "constraint_bounds_loop (pre @ c # post) x0 INFv (cl, cu) = Inl (ValueError (con_type c))"
  using assms(1,4)
proof (induction pre arbitrary: cl cu)
  case Nil
  then show ?case using assms(2,3) by (auto simp: Let_def split: sum.splits)
next
  case (Cons p pre)
  then show ?case by (auto simp: Let_def split: sum.splits)
qed

lemma find_first_split:
  "find P xs = Some x \<Longrightarrow> \<exists>post. xs = takeWhile (\<lambda>y. \<not> P y) xs @ x # post \<and> P x"
  by (induction xs) (auto split: if_splits)

text \<open>
  C7. Let \<open>c\<close> be the first constraint of the list whose kind is neither \<open>eq\<close> nor \<open>ineq\<close>.
  Then \<open>get_constraint_bounds\<close> raises. When the constraint functions of the constraints
  before \<open>c\<close> and of \<open>c\<close> itself return at the probe point, the exception is \<open>ValueError\<close>
  carrying the kind tag of \<open>c\<close>, and the entry operation, once the adapter is constructed,
  raises it with the store untouched and no call made on the solver.
\<close>

theorem invalid_constraint_kind:
  assumes "find bad_kind (as_tuple constrs) = Some c"
  shows "(\<exists>e. get_constraint_bounds constrs x0 INFv = Inl e) \<and>
         ((\<forall>p\<in>set (takeWhile (\<lambda>p. \<not> bad_kind p) (as_tuple constrs) @ [c]).
              \<exists>v. con_fun p x0 (get_args p) = Inr v) \<longrightarrow>
            get_constraint_bounds constrs x0 INFv = Inl (ValueError (con_type c)) \<and>
            ((\<exists>problem. IpoptProblemWrapper_init f args kwargs jac hess hessp constrs (1 / 10 ^ 8) =
                          Inr problem) \<longrightarrow>
               minimize_ipopt s f x0 args kwargs jac hess hessp bounds constrs tol options h =
                 (Inl (ValueError (con_type c)), h, [])))"
proof -
  define pre where "pre = takeWhile (\<lambda>p. \<not> bad_kind p) (as_tuple constrs)"
  from find_first_split [OF assms] obtain post where
    sp: "as_tuple constrs = pre @ c # post" and bc: "bad_kind c"
    unfolding pre_def by blast
  have gp: "\<forall>p\<in>set pre. con_type p = ''eq'' \<or> con_type p = ''ineq''"
    unfolding pre_def using set_takeWhileD [of _ "\<lambda>p. \<not> bad_kind p" "as_tuple constrs"]
    by (auto simp: bad_kind_def)
  have c1: "con_type c \<noteq> ''eq''" and c2: "con_type c \<noteq> ''ineq''"
    using bc by (simp_all add: bad_kind_def)
  have fails: "\<exists>e. get_constraint_bounds constrs x0 INFv = Inl e"
    using constraint_bounds_loop_fails [OF gp c1 c2]
    by (simp add: get_constraint_bounds_def sp)
  have named: "get_constraint_bounds constrs x0 INFv = Inl (ValueError (con_type c)) \<and>
            ((\<exists>problem. IpoptProblemWrapper_init f args kwargs jac hess hessp constrs (1 / 10 ^ 8) =
                          Inr problem) \<longrightarrow>
               minimize_ipopt s f x0 args kwargs jac hess hessp bounds constrs tol options h =
                 (Inl (ValueError (con_type c)), h, []))"
    if d: "\<forall>p\<in>set (pre @ [c]). \<exists>v. con_fun p x0 (get_args p) = Inr v"
  proof -
    have g: "get_constraint_bounds constrs x0 b = Inl (ValueError (con_type c))" for b
      using constraint_bounds_loop_bad_kind [OF gp c1 c2 d]
      by (simp add: get_constraint_bounds_def sp)
    have "minimize_ipopt s f x0 args kwargs jac hess hessp bounds constrs tol options h =
                 (Inl (ValueError (con_type c)), h, [])"
      if "IpoptProblemWrapper_init f args kwargs jac hess hessp constrs (1 / 10 ^ 8) = Inr problem"
      for problem
      using that by (simp add: minimize_ipopt_def g split: prod.splits)
    with g show ?thesis by blast
  qed
  from fails named show ?thesis
    unfolding pre_def by blast
qed

theorem invalid_constraint_kind_witness:
  "find bad_kind (as_tuple (ManyCons [ex_eq, ex_badkind])) = Some ex_badkind \<and>
   get_constraint_bounds (ManyCons [ex_eq, ex_badkind]) (Vec [1, 2]) INF_default =
     Inl (ValueError ''le'') \<and>
   minimize_ipopt ex_solver ex_fun (Vec [1, 2]) [] None (JacCallable ex_grad) None None None
     (ManyCons [ex_eq, ex_badkind]) None (Some 0) ex_store =
     (Inl (ValueError ''le''), ex_store, [])"
proof -
  have k: "\<not> bad_kind ex_eq" "bad_kind ex_badkind"
    by (simp_all add: bad_kind_def ex_eq_def ex_badkind_def)
  have 1: "find bad_kind (as_tuple (ManyCons [ex_eq, ex_badkind])) = Some ex_badkind"
    by (simp add: k)
  have 5: "\<forall>p\<in>set (takeWhile (\<lambda>p. \<not> bad_kind p) (as_tuple (ManyCons [ex_eq, ex_badkind])) @
                    [ex_badkind]).
             \<exists>v. con_fun p (Vec [1, 2]) (get_args p) = Inr v"
  proof -
    have "takeWhile (\<lambda>p. \<not> bad_kind p) (as_tuple (ManyCons [ex_eq, ex_badkind])) = [ex_eq]"
      by (simp add: k)
    moreover have "\<exists>v. con_fun ex_eq (Vec [1, 2]) (get_args ex_eq) = Inr v"
      by (simp add: ex_eq_def ex_con_fun_def)
    moreover have "\<exists>v. con_fun ex_badkind (Vec [1, 2]) (get_args ex_badkind) = Inr v"
      by (simp add: ex_badkind_def ex_con_fun_def)
    ultimately show ?thesis by simp
  qed
  have 6: "\<exists>problem. IpoptProblemWrapper_init ex_fun [] None (JacCallable ex_grad) None None
             (ManyCons [ex_eq, ex_badkind]) (1 / 10 ^ 8) = Inr problem"
    by (simp add: IpoptProblemWrapper_init_def ex_eq_def ex_badkind_def)
  have 7: "con_type ex_badkind = ''le''"
    by (simp add: ex_badkind_def)
  note t = invalid_constraint_kind [OF 1, THEN conjunct2, THEN mp, OF 5]
  from t [of INF_default ex_fun "[]" None "JacCallable ex_grad" None None]
  have a: "get_constraint_bounds (ManyCons [ex_eq, ex_badkind]) (Vec [1, 2]) INF_default =
     Inl (ValueError ''le'')"
    by (simp add: 7)
  from t [of INF_default ex_fun "[]" None "JacCallable ex_grad" None None ex_solver None None
      "Some 0" ex_store, THEN conjunct2, THEN mp, OF 6]
  have b: "minimize_ipopt ex_solver ex_fun (Vec [1, 2]) [] None (JacCallable ex_grad) None None None
     (ManyCons [ex_eq, ex_badkind]) None (Some 0) ex_store =
     (Inl (ValueError ''le''), ex_store, [])"
    by (simp add: 7)
  from 1 a b show ?thesis by simp
qed

section \<open>The result record\<close>

lemma minimize_ipopt_returns:
  assumes "minimize_ipopt s f x0 args kwargs jac hess hessp bounds constrs tol options h =
             (Inr r, h', evs)"
  shows "\<exists>p opts sol info w'.
            solve s p opts (atleast_1d x0) = (Inr (sol, info), w') \<and>
            nlp_n p = length (atleast_1d x0) \<and>
            r_success r = (status info = 0) \<and>
            r_status r = status info \<and> r_message r = status_msg info \<and>
            r_fun r = obj_val info \<and> r_info r = info \<and>
            r_nfev r = nfev w' \<and> r_njev r = njev w' \<and> r_nit r = nit w' \<and>
            (case x0 of
               Scalar x \<Rightarrow> (\<exists>v rest. sol = v # rest \<and> r_x r = Scalar v)
             | Vec xs \<Rightarrow> r_x r = Vec sol)"
  using assms
  apply (cases x0)
   apply (auto simp: minimize_ipopt_def Let_def is_scalar_def
      split: sum.splits prod.splits option.splits if_splits list.splits)
     apply (intro exI conjI, assumption, simp_all)+
  done

text \<open>
  C5. When the entry operation returns a result record, the record was assembled from
  what \<open>solve\<close> returned for the starting point made one-dimensional: its status, message,
  objective value and info payload are the solver's, its counters are the adapter's, and
  \<open>success\<close> holds exactly when the status is 0. The solution in the record is a scalar
  exactly when the starting point was one: the first entry of the solver's solution for a
  scalar starting point, the solver's solution itself otherwise. For a solver that
  returns a solution of the problem's dimension, a starting vector of length \<open>n\<close> gives a
  solution of length \<open>n\<close>.
\<close>

theorem result_record_shape:
  assumes "minimize_ipopt s f x0 args kwargs jac hess hessp bounds constrs tol options h =
             (Inr r, h', evs)"
  shows "r_success r = (r_status r = 0) \<and>
         (is_scalar (r_x r) \<longleftrightarrow> is_scalar x0) \<and>
         (\<exists>p opts sol info w'.
            solve s p opts (atleast_1d x0) = (Inr (sol, info), w') \<and>
            r_status r = status info \<and> r_message r = status_msg info \<and>
            r_fun r = obj_val info \<and> r_info r = info \<and>
            r_nfev r = nfev w' \<and> r_njev r = njev w' \<and> r_nit r = nit w' \<and>
            (case x0 of
               Scalar x \<Rightarrow> (\<exists>v rest. sol = v # rest \<and> r_x r = Scalar v)
             | Vec xs \<Rightarrow> r_x r = Vec sol)) \<and>
         ((\<forall>p opts x sol info w'.
             solve s p opts x = (Inr (sol, info), w') \<and> nlp_n p = length x \<longrightarrow>
             length sol = nlp_n p) \<longrightarrow>
          (\<forall>xs. x0 = Vec xs \<longrightarrow> (\<exists>ys. r_x r = Vec ys \<and> length ys = length xs)))"
proof -
  from minimize_ipopt_returns [OF assms]
  obtain p opts sol info w' where
    sv: "solve s p opts (atleast_1d x0) = (Inr (sol, info), w')" and
    n: "nlp_n p = length (atleast_1d x0)" and
    su: "r_success r = (status info = 0)" and
    st: "r_status r = status info" and
    rest: "r_message r = status_msg info" "r_fun r = obj_val info" "r_info r = info"
      "r_nfev r = nfev w'" "r_njev r = njev w'" "r_nit r = nit w'" and
    x: "case x0 of Scalar x \<Rightarrow> (\<exists>v rest. sol = v # rest \<and> r_x r = Scalar v)
        | Vec xs \<Rightarrow> r_x r = Vec sol"
    by blast
  have 1: "r_success r = (r_status r = 0)"
    by (simp add: su st)
  have 2: "is_scalar (r_x r) \<longleftrightarrow> is_scalar x0"
    using x by (cases x0) (auto simp: is_scalar_def)
  have 3: "\<exists>p opts sol info w'.
            solve s p opts (atleast_1d x0) = (Inr (sol, info), w') \<and>
            r_status r = status info \<and> r_message r = status_msg info \<and>
            r_fun r = obj_val info \<and> r_info r = info \<and>
            r_nfev r = nfev w' \<and> r_njev r = njev w' \<and> r_nit r = nit w' \<and>
            (case x0 of
               Scalar x \<Rightarrow> (\<exists>v rest. sol = v # rest \<and> r_x r = Scalar v)
             | Vec xs \<Rightarrow> r_x r = Vec sol)"
    using sv st rest x by blast
  have 4: "(\<forall>p opts x sol info w'.
             solve s p opts x = (Inr (sol, info), w') \<and> nlp_n p = length x \<longrightarrow>
             length sol = nlp_n p) \<longrightarrow>
          (\<forall>xs. x0 = Vec xs \<longrightarrow> (\<exists>ys. r_x r = Vec ys \<and> length ys = length xs))"
  proof (intro impI allI)
    fix xs
    assume c: "\<forall>p opts x sol info w'.
             solve s p opts x = (Inr (sol, info), w') \<and> nlp_n p = length x \<longrightarrow>
             length sol = nlp_n p"
      and v: "x0 = Vec xs"
    from c sv n have "length sol = nlp_n p" by blast
    with n v x show "\<exists>ys. r_x r = Vec ys \<and> length ys = length xs" by simp
  qed
  from 1 2 3 4 show ?thesis by blast
qed

lemma ex_minimize_scalar:
  "fst (minimize_ipopt ex_solver ex_fun (Scalar 3) [] None JacNone None None None
               (ManyCons []) None None ex_store) = Inr ex_scalar_result"
proof -
  have i: "IpoptProblemWrapper_init ex_fun [] None JacNone None None (ManyCons []) (1 / 10 ^ 8) =
     Inr ex_standalone"
    by (rule ex_standalone_init)
  have g: "get_constraint_bounds (ManyCons []) (Scalar 3) INF_default = Inr ([], [])"
    by (simp add: get_constraint_bounds_def)
  have t: "translate_options [] None None None =
     [(''print_level'', PInt 0), (''tol'', PFloat (1 / 100000000)),
      (''mu_strategy'', PStr ''adaptive''), (''hessian_approximation'', PStr ''limited-memory'')]"
    by (simp add: translate_options_def rename_options_def default_options_def replace_option_def
      set_if_absent_def has_key_def tol_or_default_def)
  have o: "snd (objective ex_standalone [3]) = ex_standalone\<lparr>nfev := 1\<rparr>"
    by (simp add: objective_def ex_standalone_def)
  have gr: "snd (gradient (ex_standalone\<lparr>nfev := 1\<rparr>) [3]) = ex_standalone\<lparr>nfev := 1, njev := 1\<rparr>"
    by (simp add: gradient_def ex_standalone_def)
  show ?thesis
    using i g
    by (simp add: minimize_ipopt_def get_bounds_def new_dict_def ex_store_def t Let_def
        ex_solver_def is_scalar_def o gr intermediate_def ex_scalar_result_def)
qed

theorem result_record_shape_witness:
  "fst (minimize_ipopt ex_solver ex_fun (Vec [1, 2]) [] None JacNone None None None
               (ManyCons []) None (Some 0) ex_store) = Inr ex_result \<and>
   r_success ex_result = (r_status ex_result = 0) \<and>
   \<not> is_scalar (r_x ex_result) \<and>
   (\<exists>ys. r_x ex_result = Vec ys \<and> length ys = length [1, 2 :: real]) \<and>
   fst (minimize_ipopt ex_solver ex_fun (Scalar 3) [] None JacNone None None None
               (ManyCons []) None None ex_store) = Inr ex_scalar_result \<and>
   is_scalar (r_x ex_scalar_result)"
proof -
  obtain h1 e1 where m1: "minimize_ipopt ex_solver ex_fun (Vec [1, 2]) [] None JacNone None None None
               (ManyCons []) None (Some 0) ex_store = (Inr ex_result, h1, e1)"
    using ex_minimize_result
    by (cases "minimize_ipopt ex_solver ex_fun (Vec [1, 2]) [] None JacNone None None None
               (ManyCons []) None (Some 0) ex_store") auto
  obtain h2 e2 where m2: "minimize_ipopt ex_solver ex_fun (Scalar 3) [] None JacNone None None None
               (ManyCons []) None None ex_store = (Inr ex_scalar_result, h2, e2)"
    using ex_minimize_scalar
    by (cases "minimize_ipopt ex_solver ex_fun (Scalar 3) [] None JacNone None None None
               (ManyCons []) None None ex_store") auto
  have c: "\<forall>p opts x sol info w'.
             solve ex_solver p opts x = (Inr (sol, info), w') \<and> nlp_n p = length x \<longrightarrow>
             length sol = nlp_n p"
    by (simp add: ex_solver_def Let_def)
  note t1 = result_record_shape [OF m1]
  note t2 = result_record_shape [OF m2]
  have a: "r_success ex_result = (r_status ex_result = 0)"
    using t1 by blast
  have b: "\<not> is_scalar (r_x ex_result)"
    using t1 by (simp add: is_scalar_def)
  have d: "\<exists>ys. r_x ex_result = Vec ys \<and> length ys = length [1, 2 :: real]"
    using t1 c by blast
  have e: "is_scalar (r_x ex_scalar_result)"
    using t2 by (simp add: is_scalar_def)
  show ?thesis
    using ex_minimize_result ex_minimize_scalar a b d e by blast
qed

section \<open>The caller's option dictionary\<close>

lemma init_ok_no_hessian:
  "IpoptProblemWrapper_init f args kwargs jac hess hessp constrs eps = Inr problem \<Longrightarrow>
   hess = None \<and> hessp = None"
  by (auto simp: IpoptProblemWrapper_init_def split: if_splits)

lemma minimize_ipopt_store:
  assumes "IpoptProblemWrapper_init f args kwargs jac hess hessp constrs (1 / 10 ^ 8) = Inr problem"
    and "get_constraint_bounds constrs x0 INF_default = Inr (cl, cu)"
  shows "fst (snd (minimize_ipopt s f x0 args kwargs jac hess hessp bounds constrs tol options h)) =
           (case options of
              Some a \<Rightarrow> h\<lparr>cells := (cells h)(a := translate_options (cells h a) tol hess hessp)\<rparr>
            | None \<Rightarrow> h\<lparr>cells := (cells h)(next_free h := translate_options [] tol hess hessp),
                         next_free := Suc (next_free h)\<rparr>)"
  using assms
  by (cases options)
    (auto simp: minimize_ipopt_def Let_def new_dict_def
      split: sum.splits prod.splits option.splits if_splits list.splits)

lemma map_of_default_tol:
  "map_of (default_options d tol hess hessp) ''tol'' =
     (if map_of d ''tol'' = None then Some (PFloat (tol_or_default tol)) else map_of d ''tol'')"
  by (simp add: default_options_def Let_def map_of_set_if_absent update_conv')

lemma map_of_default_mu_strategy:
  "map_of (default_options d tol hess hessp) ''mu_strategy'' =
     (if map_of d ''mu_strategy'' = None then Some (PStr ''adaptive'')
      else map_of d ''mu_strategy'')"
  by (simp add: default_options_def Let_def map_of_set_if_absent update_conv')

lemma map_of_default_hessian_approximation:
  "map_of (default_options d tol hess hessp) ''hessian_approximation'' =
     (if map_of d ''hessian_approximation'' = None \<and> hess = None \<and> hessp = None
      then Some (PStr ''limited-memory'') else map_of d ''hessian_approximation'')"
  by (simp add: default_options_def Let_def map_of_set_if_absent update_conv' has_key_map_of)

lemma translate_options_defaults:
  "has_key (translate_options d tol hess hessp) ''print_level''"
  "has_key (translate_options d tol hess hessp) ''tol''"
  "has_key (translate_options d tol hess hessp) ''mu_strategy''"
  "hess = None \<Longrightarrow> hessp = None \<Longrightarrow>
   has_key (translate_options d tol hess hessp) ''hessian_approximation''"
  by (simp_all add: has_key_map_of translate_options_def map_of_default_print_level
      map_of_default_tol map_of_default_mu_strategy map_of_default_hessian_approximation)

text \<open>
  C9. Once the adapter is constructed and the constraint bounds are computed, the entry
  operation rewrites the dictionary at the address the caller passed: whatever happens
  afterwards, that cell holds the translated options (aliases renamed, the four defaults
  present), every other cell and the allocation pointer are as before, and the cell
  differs from what the caller passed whenever one of the four default keys was missing.
  When the caller passes no dictionary, a fresh cell is allocated and holds the
  translated empty dictionary, and no cell that existed before is touched.
\<close>

theorem options_mutated_in_place:
  assumes "IpoptProblemWrapper_init f args kwargs jac hess hessp constrs (1 / 10 ^ 8) = Inr problem"
    and "get_constraint_bounds constrs x0 INF_default = Inr (cl, cu)"
  shows "(let h' = fst (snd (minimize_ipopt s f x0 args kwargs jac hess hessp bounds constrs tol
                               (Some a) h))
          in cells h' a = translate_options (cells h a) tol hess hessp \<and>
             (\<forall>b. b \<noteq> a \<longrightarrow> cells h' b = cells h b) \<and>
             next_free h' = next_free h \<and>
             has_key (cells h' a) ''print_level'' \<and> has_key (cells h' a) ''tol'' \<and>
             has_key (cells h' a) ''mu_strategy'' \<and>
             has_key (cells h' a) ''hessian_approximation'' \<and>
             (\<not> has_key (cells h a) ''print_level'' \<or> \<not> has_key (cells h a) ''tol'' \<or>
              \<not> has_key (cells h a) ''mu_strategy'' \<or>
              \<not> has_key (cells h a) ''hessian_approximation'' \<longrightarrow>
                cells h' a \<noteq> cells h a)) \<and>
         (let h' = fst (snd (minimize_ipopt s f x0 args kwargs jac hess hessp bounds constrs tol
                               None h))
          in (\<forall>b. b \<noteq> next_free h \<longrightarrow> cells h' b = cells h b) \<and>
             cells h' (next_free h) = translate_options [] tol hess hessp \<and>
             next_free h' = Suc (next_free h))"
proof -
  have nh: "hess = None" "hessp = None"
    using init_ok_no_hessian [OF assms(1)] by simp_all
  note st = minimize_ipopt_store [OF assms, of s bounds tol _ h]
  note d = translate_options_defaults [where d = "cells h a" and tol = tol and hess = hess
      and hessp = hessp]
  have ch: "\<not> has_key (cells h a) ''print_level'' \<or> \<not> has_key (cells h a) ''tol'' \<or>
              \<not> has_key (cells h a) ''mu_strategy'' \<or>
              \<not> has_key (cells h a) ''hessian_approximation'' \<longrightarrow>
            translate_options (cells h a) tol hess hessp \<noteq> cells h a"
    using d(1,2,3) d(4) [OF nh] by auto
  show ?thesis
    using d(1,2,3) d(4) [OF nh] ch by (simp add: st Let_def)
qed

theorem options_mutated_in_place_witness:
  "cells (fst (snd (minimize_ipopt ex_solver ex_fun (Vec [1, 2]) [] None JacNone None None None
                      (ManyCons []) None (Some 0) ex_store))) 0 =
     [(''print_level'', PInt 5), (''max_iter'', PInt 100), (''tol'', PFloat (1 / 10 ^ 8)),
      (''mu_strategy'', PStr ''adaptive''), (''hessian_approximation'', PStr ''limited-memory'')] \<and>
   cells ex_store 0 = [(''disp'', PInt 5), (''maxiter'', PInt 100)] \<and>
   cells (fst (snd (minimize_ipopt ex_solver ex_fun (Vec [1, 2]) [] None JacNone None None None
                      (ManyCons []) None None ex_store))) 0 =
     [(''disp'', PInt 5), (''maxiter'', PInt 100)]"
proof -
  have i: "IpoptProblemWrapper_init ex_fun [] None JacNone None None (ManyCons []) (1 / 10 ^ 8) =
     Inr ex_standalone"
    by (rule ex_standalone_init)
  have g: "get_constraint_bounds (ManyCons []) (Vec [1, 2]) INF_default = Inr ([], [])"
    by (simp add: get_constraint_bounds_def)
  have c: "cells ex_store 0 = [(''disp'', PInt 5), (''maxiter'', PInt 100)]"
    and n: "0 \<noteq> next_free ex_store"
    by (simp_all add: ex_store_def)
  note t = options_mutated_in_place [OF i g, of ex_solver None None 0 ex_store, unfolded Let_def]
  have a: "cells (fst (snd (minimize_ipopt ex_solver ex_fun (Vec [1, 2]) [] None JacNone None None None
                      (ManyCons []) None (Some 0) ex_store))) 0 =
     translate_options (cells ex_store 0) None None None"
    using t by blast
  have b: "cells (fst (snd (minimize_ipopt ex_solver ex_fun (Vec [1, 2]) [] None JacNone None None None
                      (ManyCons []) None None ex_store))) 0 = cells ex_store 0"
    using t n by blast
  show ?thesis
    using a b c ex_translate by simp
qed

section \<open>Stacked constraints and Jacobians\<close>

lemma eval_each_map:
  assumes "\<forall>c\<in>set cs. F c x (get_args c) = Inr (G c)"
  shows "eval_each (map F cs) (map get_args cs) x acc = Inr (acc @ map G cs)"
  using assms by (induction cs arbitrary: acc) simp_all

lemma concat_lengths_eq:
  "\<forall>c\<in>set cs. length (F c) = length (G c) \<Longrightarrow>
   length (concat (map F cs)) = length (concat (map G cs))"
  by (induction cs) simp_all

lemma init_constraint_lists:
  assumes "IpoptProblemWrapper_init f args kwargs jac hess hessp constrs eps = Inr w0"
  shows "constraint_funs w0 = map con_fun (as_tuple constrs)"
    and "constraint_jacs w0 = map (\<lambda>c. the (con_jac c)) (as_tuple constrs)"
    and "constraint_args w0 = map get_args (as_tuple constrs)"
    and "\<forall>c\<in>set (as_tuple constrs). con_jac c \<noteq> None"
  using assms
  by (auto simp: IpoptProblemWrapper_init_def init_constraints_acc list_all_iff
      split: if_splits sum.splits prod.splits)

lemma constraint_lists_kept:
  "constraint_funs (snd (objective w x)) = constraint_funs w"
  "constraint_jacs (snd (objective w x)) = constraint_jacs w"
  "constraint_args (snd (objective w x)) = constraint_args w"
  "constraint_funs (snd (gradient w x)) = constraint_funs w"
  "constraint_jacs (snd (gradient w x)) = constraint_jacs w"
  "constraint_args (snd (gradient w x)) = constraint_args w"
  "constraint_funs (intermediate w k) = constraint_funs w"
  "constraint_jacs (intermediate w k) = constraint_jacs w"
  "constraint_args (intermediate w k) = constraint_args w"
  by (auto simp: objective_def gradient_def intermediate_def evaluate_fun_with_grad_def Let_def
      split: sum.splits prod.splits option.splits)

text \<open>
  C8 (as amended). For an adapter constructed from a non-empty constraint list, in any
  later state (the three constraint lists never change), at a point where every
  constraint function returns: \<open>constraints(x)\<close> is the concatenation, in list order, of
  what the constraint functions return. When every Jacobian returns there as well and
  all the rows have one length, \<open>jacobian(x)\<close> is the rows of the Jacobians stacked in the
  same order; its row count is the length of \<open>constraints(x)\<close> when each Jacobian returns
  as many rows as its constraint has components.
\<close>

theorem constraints_stacked_in_order:
  assumes "IpoptProblemWrapper_init f args kwargs jac hess hessp constrs eps = Inr w0"
    and "constraint_funs w = constraint_funs w0 \<and> constraint_jacs w = constraint_jacs w0 \<and>
         constraint_args w = constraint_args w0"
    and "as_tuple constrs \<noteq> []"
    and "\<forall>c\<in>set (as_tuple constrs). \<exists>v. con_fun c (Vec x) (get_args c) = Inr v"
  shows "constraints w x = Inr (concat (map (\<lambda>c. con_value c x) (as_tuple constrs))) \<and>
         ((\<forall>c\<in>set (as_tuple constrs). \<exists>j b. con_jac c = Some j \<and> j (Vec x) (get_args c) = Inr b) \<and>
          (\<forall>c\<in>set (as_tuple constrs). \<forall>r\<in>set (con_jac_rows c x). length r = n) \<longrightarrow>
            jacobian w x = Inr (concat (map (\<lambda>c. con_jac_rows c x) (as_tuple constrs))) \<and>
            ((\<forall>c\<in>set (as_tuple constrs). length (con_jac_rows c x) = length (con_value c x)) \<longrightarrow>
               length (concat (map (\<lambda>c. con_jac_rows c x) (as_tuple constrs))) =
               length (concat (map (\<lambda>c. con_value c x) (as_tuple constrs)))))"
proof -
  let ?cs = "as_tuple constrs"
  note l = init_constraint_lists [OF assms(1)]
  have fs: "constraint_funs w = map con_fun ?cs"
    and js: "constraint_jacs w = map (\<lambda>c. the (con_jac c)) ?cs"
    and as: "constraint_args w = map get_args ?cs"
    using assms(2) l(1,2,3) by simp_all
  define G where "G c = (case con_fun c (Vec x) (get_args c) of Inr v \<Rightarrow> v | Inl e \<Rightarrow> Scalar 0)" for c
  have g: "\<forall>c\<in>set ?cs. con_fun c (Vec x) (get_args c) = Inr (G c)"
    using assms(4) by (auto simp: G_def)
  have gv: "\<forall>c\<in>set ?cs. atleast_1d (G c) = con_value c x"
    using assms(4) by (auto simp: G_def con_value_def)
  have "map (\<lambda>c. atleast_1d (G c)) ?cs = map (\<lambda>c. con_value c x) ?cs"
    using gv by simp
  then have mc: "concat (map (\<lambda>c. atleast_1d (G c)) ?cs) = concat (map (\<lambda>c. con_value c x) ?cs)"
    by (rule arg_cong)
  have c: "constraints w x = Inr (concat (map (\<lambda>c. con_value c x) ?cs))"
    using assms(3)
    by (simp add: constraints_def fs as np_hstack_def comp_def mc
        eval_each_map [of ?cs con_fun "Vec x" G "[]", OF g])
  have j: "jacobian w x = Inr (concat (map (\<lambda>c. con_jac_rows c x) ?cs))"
    if d: "\<forall>c\<in>set ?cs. \<exists>j b. con_jac c = Some j \<and> j (Vec x) (get_args c) = Inr b"
      and n: "\<forall>c\<in>set ?cs. \<forall>r\<in>set (con_jac_rows c x). length r = n"
  proof -
    define H where "H c = (case the (con_jac c) (Vec x) (get_args c) of Inr b \<Rightarrow> b | Inl e \<Rightarrow> Rows [])" for c
    have h: "\<forall>c\<in>set ?cs. the (con_jac c) (Vec x) (get_args c) = Inr (H c)"
      using d by (auto simp: H_def)
    have hv: "\<forall>c\<in>set ?cs. atleast_2d (H c) = con_jac_rows c x"
      using d by (auto simp: H_def con_jac_rows_def)
    have "map (\<lambda>c. atleast_2d (H c)) ?cs = map (\<lambda>c. con_jac_rows c x) ?cs"
      using hv by simp
    then have m: "concat (map (\<lambda>c. atleast_2d (H c)) ?cs) =
                  concat (map (\<lambda>c. con_jac_rows c x) ?cs)"
      by (rule arg_cong)
    let ?rows = "concat (map (\<lambda>c. con_jac_rows c x) ?cs)"
    have "\<forall>r\<in>set ?rows. length r = n"
      using n by auto
    then have "list_all (\<lambda>r. length r = length (hd ?rows)) ?rows"
      by (cases ?rows) (auto simp: list_all_iff)
    then show ?thesis
      using assms(3)
      by (simp add: jacobian_def js as np_vstack_def comp_def Let_def m
          eval_each_map [of ?cs "\<lambda>c. the (con_jac c)" "Vec x" H "[]", OF h])
  qed
  have len: "length (concat (map (\<lambda>c. con_jac_rows c x) ?cs)) =
             length (concat (map (\<lambda>c. con_value c x) ?cs))"
    if "\<forall>c\<in>set ?cs. length (con_jac_rows c x) = length (con_value c x)"
    using that concat_lengths_eq [of ?cs "\<lambda>c. con_jac_rows c x" "\<lambda>c. con_value c x"] by simp
  from c j len show ?thesis by blast
qed


lemma ex_constrained_init:
  "IpoptProblemWrapper_init ex_fun [] None (JacCallable ex_grad) None None
     (ManyCons [ex_ineq, ex_eq]) (1 / 10 ^ 8) = Inr ex_constrained"
  by (simp add: IpoptProblemWrapper_init_def ex_constrained_def kwargs_or_empty_def
      ex_ineq_def ex_eq_def get_args_def)

theorem constraints_stacked_in_order_witness:
  "IpoptProblemWrapper_init ex_fun [] None (JacCallable ex_grad) None None
     (ManyCons [ex_ineq, ex_eq]) (1 / 10 ^ 8) = Inr ex_constrained \<and>
   constraints ex_constrained [1, 2] = Inr [1, 3, 2] \<and>
   jacobian ex_constrained [1, 2] = Inr [[1, 0], [1, 1], [1, 1]]"
proof -
  have 2: "constraint_funs ex_constrained = constraint_funs ex_constrained \<and>
           constraint_jacs ex_constrained = constraint_jacs ex_constrained \<and>
           constraint_args ex_constrained = constraint_args ex_constrained"
    by simp
  have 3: "as_tuple (ManyCons [ex_ineq, ex_eq]) \<noteq> []"
    by simp
  have 4: "\<forall>c\<in>set (as_tuple (ManyCons [ex_ineq, ex_eq])).
             \<exists>v. con_fun c (Vec [1, 2]) (get_args c) = Inr v"
    by (simp add: ex_ineq_def ex_eq_def ex_con_fun_def ex_con2_fun_def)
  have v: "con_value ex_ineq [1, 2] = [1, 3]" "con_value ex_eq [1, 2] = [2]"
    by (simp_all add: con_value_def ex_ineq_def ex_eq_def ex_con_fun_def ex_con2_fun_def)
  have r: "con_jac_rows ex_ineq [1, 2] = [[1, 0], [1, 1]]" "con_jac_rows ex_eq [1, 2] = [[1, 1]]"
    by (simp_all add: con_jac_rows_def ex_ineq_def ex_eq_def ex_con_jac_def ex_con2_jac_def)
  have 5: "\<forall>c\<in>set (as_tuple (ManyCons [ex_ineq, ex_eq])).
             \<exists>j b. con_jac c = Some j \<and> j (Vec [1, 2]) (get_args c) = Inr b"
    by (simp add: ex_ineq_def ex_eq_def ex_con_jac_def ex_con2_jac_def)
  have 6: "\<forall>c\<in>set (as_tuple (ManyCons [ex_ineq, ex_eq])).
             \<forall>r\<in>set (con_jac_rows c [1, 2]). length r = 2"
    by (simp add: r)
  note t = constraints_stacked_in_order [OF ex_constrained_init 2 3 4, of 2]
  have a: "constraints ex_constrained [1, 2] = Inr [1, 3, 2]"
    using t by (simp add: v)
  have b: "jacobian ex_constrained [1, 2] = Inr [[1, 0], [1, 1], [1, 1]]"
    using t 5 6 by (simp add: r)
  show ?thesis
    using ex_constrained_init a b by blast
qed

lemma ex_misshaped_init:
  "IpoptProblemWrapper_init ex_fun [] None (JacCallable ex_grad) None None
     (OneCon ex_misshaped) (1 / 10 ^ 8) = Inr ex_misshaped_adapter"
  by (simp add: IpoptProblemWrapper_init_def ex_misshaped_adapter_def kwargs_or_empty_def
      ex_misshaped_def get_args_def)


text \<open>
  Two adapters at the point \<open>(1, 2)\<close>. For the scalar constraint whose \<open>jac\<close> returns two
  rows, \<open>constraints\<close> has one component and \<open>jacobian\<close> has two rows. For the empty
  constraint list both operations raise \<open>ValueError\<close>.
\<close>

theorem stacking_counterexample:
  "IpoptProblemWrapper_init ex_fun [] None (JacCallable ex_grad) None None
     (OneCon ex_misshaped) (1 / 10 ^ 8) = Inr ex_misshaped_adapter \<and>
   constraints ex_misshaped_adapter [1, 2] = Inr [2] \<and>
   jacobian ex_misshaped_adapter [1, 2] = Inr [[1, 0], [1, 1]] \<and>
   IpoptProblemWrapper_init ex_fun [] None JacNone None None (ManyCons []) (1 / 10 ^ 8) =
     Inr ex_standalone \<and>
   constraints ex_standalone [1, 2] = Inl (ValueError ''need at least one array to concatenate'') \<and>
   jacobian ex_standalone [1, 2] = Inl (ValueError ''need at least one array to concatenate'')"
proof -
  have a: "constraints ex_misshaped_adapter [1, 2] = Inr [2]"
    by (simp add: constraints_def np_hstack_def ex_misshaped_adapter_def ex_con_fun_def)
  have b: "jacobian ex_misshaped_adapter [1, 2] = Inr [[1, 0], [1, 1]]"
    by (simp add: jacobian_def np_vstack_def ex_misshaped_adapter_def ex_con2_jac_def)
  have c: "constraints ex_standalone [1, 2] =
             Inl (ValueError ''need at least one array to concatenate'')"
    by (simp add: constraints_def np_hstack_def ex_standalone_def)
  have d: "jacobian ex_standalone [1, 2] =
             Inl (ValueError ''need at least one array to concatenate'')"
    by (simp add: jacobian_def np_vstack_def ex_standalone_def)
  show ?thesis
    using ex_misshaped_init ex_standalone_init a b c d by blast
qed

end
